theory Spec2Isabelle
  imports Main "HOL-Library.AList" "HOL-Library.Sublist"
begin

section \<open>The image download and optimisation script, and the lookup helpers\<close>

text \<open>
  The script fetches the film list, downloads each film's poster and banner to a
  temporary \<open>.jpg\<close> file, converts it with the external \<open>cwebp\<close> encoder, and writes
  a JSON object from film id to local paths. Everything outside the script is an
  \<open>env\<close> of answers, one for each call by its arguments:
  \<^item> \<open>which_cwebp\<close>: whether \<open>which cwebp\<close> exits with success;
  \<^item> \<open>fetch url\<close>: the film list parsed from the response, or the error thrown by
    \<open>fetch\<close>, by \<open>response.json()\<close> or by iterating a body that is no list;
  \<^item> \<open>https_get url dest\<close>: what the request of \<open>downloadFile(url, dest)\<close> meets, a
    response with its status code and body size, or a transport error;
  \<^item> \<open>cwebp quality input output\<close>: the encoder's exit, with the size of the file
    it wrote, or the error of \<open>execAsync\<close>;
  \<^item> \<open>writeFileSync_error\<close>: the error of writing the mapping file, if any;
  \<^item> \<open>IMAGES_DIR\<close>: the image directory, which the script creates when it is absent.

  Everything the script changes is a \<open>state\<close>: the files of the image directory
  with their sizes (an association list from full paths), the mapping file, and the
  trace of the commands it ran, the requests it made and the errors it printed.

  Conventions of the model:
  \<^item> a film record is typed as the data model has it: \<open>id\<close> and \<open>title\<close> are strings,
    \<open>image\<close> and \<open>movie_banner\<close> are strings or absent (\<open>None\<close>); the test
    \<open>if (film.image)\<close> is false for an absent field and for the empty string;
  \<^item> the object \<open>imageMapping\<close> is a map from property names to entries; film ids are
    taken to be ordinary property names (not \<open>__proto__\<close>);
  \<^item> \<open>path.join(dir, name)\<close> is \<open>dir/name\<close>: the normalisation of \<open>..\<close> and of
    repeated separators is not modelled, so film ids hold no path separator;
  \<^item> \<open>fs.createWriteStream(dest)\<close> has created (or truncated) \<open>dest\<close> by the time the
    response or the transport error arrives;
  \<^item> a request settles and the write stream does not fail: the answers of
    \<open>https_get\<close> are a response that arrives whole and a transport error raised on
    the request. Outside them are a status-200 response whose body is cut after the
    headers (the promise of \<open>downloadFile\<close> then never settles and the run stops
    inside the loop), an \<open>error\<close> of the write stream (no listener: the process
    ends there) and a synchronous throw of \<open>https.get\<close> (a rejection that leaves
    the created file);
  \<^item> of the console, the \<open>console.error\<close> lines are in the trace (without their
    leading glyph), the counts of the summary are returned as a record, and the
    progress lines of \<open>console.log\<close> are left out; the three size figures of the
    summary are floating-point values printed with \<open>toFixed(2)\<close> and are not
    modelled beyond the exact byte total they start from.
\<close>

subsection \<open>Data\<close>

record film =
  film_id :: string
  film_title :: string
  film_image :: "string option"
  film_movie_banner :: "string option"

record entry =
  poster :: "string option"
  banner :: "string option"

type_synonym image_mapping = "string \<rightharpoonup> entry"

datatype response = Response nat nat | RequestError string

datatype exec_result = ExecOk nat | ExecError string

datatype fetch_result = FetchThrows string | FetchJson "film list"

datatype event =
    Exec string
  | Fetch string
  | HttpsGet string string
  | ConsoleError "string list"

record env =
  IMAGES_DIR :: string
  which_cwebp :: bool
  fetch :: "string \<Rightarrow> fetch_result"
  https_get :: "string \<Rightarrow> string \<Rightarrow> response"
  cwebp :: "nat \<Rightarrow> string \<Rightarrow> string \<Rightarrow> exec_result"
  writeFileSync_error :: "string option"

record state =
  files :: "(string \<times> nat) list"
  mapping_file :: "image_mapping option"
  trace :: "event list"

record summary =
  downloadedCount :: nat
  totalImages :: nat
  totalSize :: nat

record result =
  exit_code :: nat
  final :: state
  printed :: "summary option"

subsection \<open>Strings and paths\<close>

definition digit_char :: "nat \<Rightarrow> char" where
  "digit_char d = char_of (d + 48)"

fun decimal :: "nat \<Rightarrow> string" where
  "decimal n = (if 10 \<le> n then decimal (n div 10) @ [digit_char (n mod 10)] else [digit_char n])"

declare decimal.simps [simp del]

definition dq :: string where
  "dq = [CHR 0x22]"

definition sq :: string where
  "sq = [CHR 0x27]"

definition path_join :: "string \<Rightarrow> string \<Rightarrow> string" where
  "path_join dir name = dir @ ''/'' @ name"

definition API_BASE :: string where
  "API_BASE = ''https://ghibliapi.vercel.app''"

definition log_error :: "string list \<Rightarrow> state \<Rightarrow> state" where
  "log_error args s = s\<lparr>trace := trace s @ [ConsoleError args]\<rparr>"

subsection \<open>downloadFile\<close>

text \<open>
  The write stream creates \<open>dest\<close>; a response with status 200 is piped into it and
  the promise resolves; any other status rejects and leaves the stream's file as it
  is; a transport error unlinks \<open>dest\<close> and rejects.
\<close>

definition downloadFile :: "env \<Rightarrow> string \<Rightarrow> string \<Rightarrow> state \<Rightarrow> (string + unit) \<times> state" where
  "downloadFile e url dest s =
     (let s1 = s\<lparr>files := AList.update dest 0 (files s),
                  trace := trace s @ [HttpsGet url dest]\<rparr>
      in case https_get e url dest of
           Response statusCode len \<Rightarrow>
             if statusCode = 200
             then (Inr (), s1\<lparr>files := AList.update dest len (files s1)\<rparr>)
             else (Inl (''Failed to download '' @ url @ '': '' @ decimal statusCode), s1)
         | RequestError msg \<Rightarrow>
             (Inl msg, s1\<lparr>files := AList.delete dest (files s1)\<rparr>))"

subsection \<open>convertToWebP\<close>

text \<open>
  The quality is a defaulted parameter (\<open>quality = 60\<close>): \<open>None\<close> is a call that omits
  it. \<open>fs.unlinkSync\<close> throws when its file does not exist; every error is printed
  and thrown again.
\<close>

definition convertToWebP ::
  "env \<Rightarrow> string \<Rightarrow> string \<Rightarrow> nat option \<Rightarrow> state \<Rightarrow> (string + unit) \<times> state" where
  "convertToWebP e inputPath outputPath quality_arg s =
     (let quality = (case quality_arg of None \<Rightarrow> 60 | Some q \<Rightarrow> q);
          command = ''cwebp -q '' @ decimal quality @ '' '' @ dq @ inputPath @ dq
                      @ '' -o '' @ dq @ outputPath @ dq;
          s1 = s\<lparr>trace := trace s @ [Exec command]\<rparr>
      in case cwebp e quality inputPath outputPath of
           ExecError msg \<Rightarrow>
             (Inl msg, log_error [''Failed to convert '' @ inputPath @ '':'', msg] s1)
         | ExecOk len \<Rightarrow>
             (let s2 = s1\<lparr>files := AList.update outputPath len (files s1)\<rparr>
              in case map_of (files s2) inputPath of
                   None \<Rightarrow>
                     (let msg = ''ENOENT: no such file or directory, unlink '' @ sq @ inputPath @ sq
                      in (Inl msg, log_error [''Failed to convert '' @ inputPath @ '':'', msg] s2))
                 | Some _ \<Rightarrow>
                     (Inr (), s2\<lparr>files := AList.delete inputPath (files s2)\<rparr>)))"

subsection \<open>The loop body of main\<close>

type_synonym acc = "image_mapping \<times> nat \<times> state"

definition process_poster :: "env \<Rightarrow> film \<Rightarrow> acc \<Rightarrow> acc" where
  "process_poster e film a =
     (case a of (imageMapping, count, s) \<Rightarrow>
      (case film_image film of
         None \<Rightarrow> a
       | Some posterUrl \<Rightarrow>
           if posterUrl = [] then a
           else
             (let filmId = film_id film;
                  posterTempPath = path_join (IMAGES_DIR e) (filmId @ ''-poster.jpg'');
                  posterFinalPath = path_join (IMAGES_DIR e) (filmId @ ''-poster.webp'')
              in case downloadFile e posterUrl posterTempPath s of
                   (Inl msg, s1) \<Rightarrow>
                     (imageMapping, count, log_error [''Failed to process poster:'', msg] s1)
                 | (Inr _, s1) \<Rightarrow>
                     (case convertToWebP e posterTempPath posterFinalPath None s1 of
                        (Inl msg, s2) \<Rightarrow>
                          (imageMapping, count, log_error [''Failed to process poster:'', msg] s2)
                      | (Inr _, s2) \<Rightarrow>
                          (case imageMapping filmId of
                             None \<Rightarrow>
                               (imageMapping, count,
                                log_error [''Failed to process poster:'',
                                           ''Cannot set properties of undefined''] s2)
                           | Some en \<Rightarrow>
                               (imageMapping(filmId \<mapsto>
                                  en\<lparr>poster := Some (''/images/'' @ filmId @ ''-poster.webp'')\<rparr>),
                                count + 1, s2))))))"

definition process_banner :: "env \<Rightarrow> film \<Rightarrow> acc \<Rightarrow> acc" where
  "process_banner e film a =
     (case a of (imageMapping, count, s) \<Rightarrow>
      (case film_movie_banner film of
         None \<Rightarrow> a
       | Some bannerUrl \<Rightarrow>
           if bannerUrl = [] then a
           else
             (let filmId = film_id film;
                  bannerTempPath = path_join (IMAGES_DIR e) (filmId @ ''-banner.jpg'');
                  bannerFinalPath = path_join (IMAGES_DIR e) (filmId @ ''-banner.webp'')
              in case downloadFile e bannerUrl bannerTempPath s of
                   (Inl msg, s1) \<Rightarrow>
                     (imageMapping, count, log_error [''Failed to process banner:'', msg] s1)
                 | (Inr _, s1) \<Rightarrow>
                     (case convertToWebP e bannerTempPath bannerFinalPath None s1 of
                        (Inl msg, s2) \<Rightarrow>
                          (imageMapping, count, log_error [''Failed to process banner:'', msg] s2)
                      | (Inr _, s2) \<Rightarrow>
                          (case imageMapping filmId of
                             None \<Rightarrow>
                               (imageMapping, count,
                                log_error [''Failed to process banner:'',
                                           ''Cannot set properties of undefined''] s2)
                           | Some en \<Rightarrow>
                               (imageMapping(filmId \<mapsto>
                                  en\<lparr>banner := Some (''/images/'' @ filmId @ ''-banner.webp'')\<rparr>),
                                count + 1, s2))))))"

definition process_film :: "env \<Rightarrow> film \<Rightarrow> acc \<Rightarrow> acc" where
  "process_film e film a =
     (case a of (imageMapping, count, s) \<Rightarrow>
        process_banner e film
          (process_poster e film
             (imageMapping(film_id film \<mapsto> \<lparr>poster = None, banner = None\<rparr>), count, s)))"

fun process_films :: "env \<Rightarrow> film list \<Rightarrow> acc \<Rightarrow> acc" where
  "process_films e [] a = a"
| "process_films e (film # films) a = process_films e films (process_film e film a)"

subsection \<open>main\<close>

text \<open>
  \<open>process.exit(1)\<close> ends the process at once: after a failed probe and in the outer
  handler. A run that reaches the end of \<open>main\<close> ends with exit code 0.
\<close>

definition main :: "env \<Rightarrow> state \<Rightarrow> result" where
  "main e s0 =
     (let s1 = s0\<lparr>trace := trace s0 @ [Exec ''which cwebp'']\<rparr>
      in if \<not> which_cwebp e
         then \<lparr>exit_code = 1,
               final = log_error [''   Linux: apt-get install webp'']
                         (log_error [''   macOS: brew install webp'']
                            (log_error [''Error: cwebp not found. Please install webp tools:''] s1)),
               printed = None\<rparr>
         else
           (let s2 = s1\<lparr>trace := trace s1 @ [Fetch (API_BASE @ ''/films'')]\<rparr>
            in case fetch e (API_BASE @ ''/films'') of
                 FetchThrows msg \<Rightarrow>
                   \<lparr>exit_code = 1, final = log_error [''Error:'', msg] s2, printed = None\<rparr>
               | FetchJson films \<Rightarrow>
                   (case process_films e films (Map.empty, 0, s2) of
                      (imageMapping, count, s3) \<Rightarrow>
                        (case writeFileSync_error e of
                           Some msg \<Rightarrow>
                             \<lparr>exit_code = 1, final = log_error [''Error:'', msg] s3,
                              printed = None\<rparr>
                         | None \<Rightarrow>
                             (let s4 = s3\<lparr>mapping_file := Some imageMapping\<rparr>
                              in \<lparr>exit_code = 0, final = s4,
                                  printed = Some \<lparr>downloadedCount = count,
                                                  totalImages = length films * 2,
                                                  totalSize = sum_list (map snd (files s4))\<rparr>\<rparr>)))))"

definition start :: "(string \<times> nat) list \<Rightarrow> image_mapping option \<Rightarrow> state" where
  "start fs mf = \<lparr>files = fs, mapping_file = mf, trace = []\<rparr>"

subsection \<open>The lookup helpers\<close>

text \<open>
  \<open>mapping[filmId]?.poster || fallbackUrl\<close>: the left operand is used unless it is
  undefined or the empty string. The mapping is the imported JSON file, a parameter
  here. The second variant has the fixed fallback \<open>/images/placeholder.webp\<close>.
\<close>

definition js_or :: "string option \<Rightarrow> string \<Rightarrow> string" where
  "js_or v fallback = (case v of None \<Rightarrow> fallback | Some p \<Rightarrow> if p = [] then fallback else p)"

definition getFilmPoster :: "image_mapping \<Rightarrow> string \<Rightarrow> string \<Rightarrow> string" where
  "getFilmPoster mapping filmId fallbackUrl =
     js_or (case mapping filmId of None \<Rightarrow> None | Some en \<Rightarrow> poster en) fallbackUrl"

definition getFilmBanner :: "image_mapping \<Rightarrow> string \<Rightarrow> string \<Rightarrow> string" where
  "getFilmBanner mapping filmId fallbackUrl =
     js_or (case mapping filmId of None \<Rightarrow> None | Some en \<Rightarrow> banner en) fallbackUrl"

definition getFilmPoster_fixed :: "image_mapping \<Rightarrow> string \<Rightarrow> string" where
  "getFilmPoster_fixed mapping filmId =
     js_or (case mapping filmId of None \<Rightarrow> None | Some en \<Rightarrow> poster en) ''/images/placeholder.webp''"

definition getFilmBanner_fixed :: "image_mapping \<Rightarrow> string \<Rightarrow> string" where
  "getFilmBanner_fixed mapping filmId =
     js_or (case mapping filmId of None \<Rightarrow> None | Some en \<Rightarrow> banner en) ''/images/placeholder.webp''"

section \<open>Verification\<close>

subsection \<open>Vocabulary of the statements\<close>

text \<open>
  The temporary and final paths of a film's two images, and what it means for a
  film's poster or banner to go through: the field holds a URL (it is present and
  not empty), the download of that URL to the temporary path ends with status 200,
  and the encoder, called at quality 60 on the temporary path, succeeds.
\<close>

definition poster_temp :: "env \<Rightarrow> film \<Rightarrow> string" where
  "poster_temp e f = path_join (IMAGES_DIR e) (film_id f @ ''-poster.jpg'')"
definition poster_final :: "env \<Rightarrow> film \<Rightarrow> string" where
  "poster_final e f = path_join (IMAGES_DIR e) (film_id f @ ''-poster.webp'')"
definition banner_temp :: "env \<Rightarrow> film \<Rightarrow> string" where
  "banner_temp e f = path_join (IMAGES_DIR e) (film_id f @ ''-banner.jpg'')"
definition banner_final :: "env \<Rightarrow> film \<Rightarrow> string" where
  "banner_final e f = path_join (IMAGES_DIR e) (film_id f @ ''-banner.webp'')"

definition has_url :: "string option \<Rightarrow> bool" where
  "has_url v = (case v of None \<Rightarrow> False | Some u \<Rightarrow> u \<noteq> [])"

definition download_ok :: "env \<Rightarrow> string option \<Rightarrow> string \<Rightarrow> bool" where
  "download_ok e v dest =
     (case v of None \<Rightarrow> False
      | Some u \<Rightarrow> (case https_get e u dest of Response code _ \<Rightarrow> code = 200 | RequestError _ \<Rightarrow> False))"

definition convert_ok :: "env \<Rightarrow> string \<Rightarrow> string \<Rightarrow> bool" where
  "convert_ok e inp out = (case cwebp e 60 inp out of ExecOk _ \<Rightarrow> True | ExecError _ \<Rightarrow> False)"

definition poster_ok :: "env \<Rightarrow> film \<Rightarrow> bool" where
  "poster_ok e f = (has_url (film_image f) \<and> download_ok e (film_image f) (poster_temp e f)
      \<and> convert_ok e (poster_temp e f) (poster_final e f))"

definition banner_ok :: "env \<Rightarrow> film \<Rightarrow> bool" where
  "banner_ok e f = (has_url (film_movie_banner f) \<and> download_ok e (film_movie_banner f) (banner_temp e f)
      \<and> convert_ok e (banner_temp e f) (banner_final e f))"

definition poster_path :: "film \<Rightarrow> string" where
  "poster_path f = ''/images/'' @ film_id f @ ''-poster.webp''"

definition banner_path :: "film \<Rightarrow> string" where
  "banner_path f = ''/images/'' @ film_id f @ ''-banner.webp''"

definition expected_entry :: "env \<Rightarrow> film \<Rightarrow> entry" where
  "expected_entry e f =
     \<lparr>poster = (if poster_ok e f then Some (poster_path f) else None),
      banner = (if banner_ok e f then Some (banner_path f) else None)\<rparr>"

text \<open>
  What a trace shows: the downloads it attempted (URL and destination), the commands
  it ran, and the network requests among its events.
\<close>

fun http_gets :: "event list \<Rightarrow> (string \<times> string) list" where
  "http_gets [] = []"
| "http_gets (HttpsGet u d # evs) = (u, d) # http_gets evs"
| "http_gets (ev # evs) = http_gets evs"

fun execs :: "event list \<Rightarrow> string list" where
  "execs [] = []"
| "execs (Exec c # evs) = c # execs evs"
| "execs (ev # evs) = execs evs"

fun is_network :: "event \<Rightarrow> bool" where
  "is_network (Fetch u) = True"
| "is_network (HttpsGet u d) = True"
| "is_network ev = False"

definition convert_command :: "string \<Rightarrow> string" where
  "convert_command stem =
     ''cwebp -q 60 '' @ dq @ stem @ ''.jpg'' @ dq @ '' -o '' @ dq @ stem @ ''.webp'' @ dq"

definition attempt :: "string option \<Rightarrow> string \<Rightarrow> (string \<times> string) list" where
  "attempt v dest = (case v of None \<Rightarrow> [] | Some u \<Rightarrow> if u = [] then [] else [(u, dest)])"

definition attempts :: "env \<Rightarrow> film \<Rightarrow> (string \<times> string) list" where
  "attempts e f =
     attempt (film_image f) (poster_temp e f) @ attempt (film_movie_banner f) (banner_temp e f)"

definition conversion :: "env \<Rightarrow> string option \<Rightarrow> string \<Rightarrow> string list" where
  "conversion e v stem =
     (if has_url v \<and> download_ok e v (stem @ ''.jpg'') then [convert_command stem] else [])"

definition conversions :: "env \<Rightarrow> film \<Rightarrow> string list" where
  "conversions e f =
     conversion e (film_image f) (path_join (IMAGES_DIR e) (film_id f @ ''-poster'')) @
     conversion e (film_movie_banner f) (path_join (IMAGES_DIR e) (film_id f @ ''-banner''))"

text \<open>The number of entries of a mapping that have a poster, and that have a banner.\<close>

definition with_poster :: "image_mapping \<Rightarrow> string set" where
  "with_poster m = {k. \<exists>en. m k = Some en \<and> poster en \<noteq> None}"

definition with_banner :: "image_mapping \<Rightarrow> string set" where
  "with_banner m = {k. \<exists>en. m k = Some en \<and> banner en \<noteq> None}"

text \<open>The mapping a run builds: one entry for each film, in the order of the list.\<close>

definition built_mapping :: "env \<Rightarrow> film list \<Rightarrow> image_mapping \<Rightarrow> image_mapping" where
  "built_mapping e films m = fold (\<lambda>f m. m(film_id f \<mapsto> expected_entry e f)) films m"

definition mapping_writable :: "env \<Rightarrow> bool" where
  "mapping_writable e = (writeFileSync_error e = None)"

definition run_completes :: "env \<Rightarrow> film list \<Rightarrow> bool" where
  "run_completes e films =
     (which_cwebp e \<and> fetch e (API_BASE @ ''/films'') = FetchJson films \<and> mapping_writable e)"


subsection \<open>An example run\<close>

text \<open>
  Three films: the first has both images, and its banner URL answers 404; the
  second has a poster only, which downloads and then fails to convert; the third
  has no poster and an empty banner field.
\<close>

definition castle :: film where
  "castle = \<lparr>film_id = ''2baf70d1'', film_title = ''Castle in the Sky'',
              film_image = Some ''https://img/castle.jpg'',
              film_movie_banner = Some ''https://img/castle-wide.jpg''\<rparr>"

definition totoro :: film where
  "totoro = \<lparr>film_id = ''58611129'', film_title = ''My Neighbor Totoro'',
              film_image = Some ''https://img/totoro.jpg'',
              film_movie_banner = None\<rparr>"

definition grave :: film where
  "grave = \<lparr>film_id = ''12cfb892'', film_title = ''Grave of the Fireflies'',
             film_image = None,
             film_movie_banner = Some []\<rparr>"

definition demo_films :: "film list" where
  "demo_films = [castle, totoro, grave]"

definition demo_env :: env where
  "demo_env =
     \<lparr>IMAGES_DIR = ''public/images'',
      which_cwebp = True,
      fetch = (\<lambda>url. FetchJson demo_films),
      https_get = (\<lambda>url dest.
         if url = ''https://img/castle-wide.jpg'' then Response 404 0 else Response 200 5000),
      cwebp = (\<lambda>q inp out.
         if inp = ''public/images/58611129-poster.jpg'' then ExecError ''Command failed''
         else ExecOk 1200),
      writeFileSync_error = None\<rparr>"

text \<open>The same world with no encoder installed, and with the film list out of reach.\<close>

definition no_encoder_env :: env where
  "no_encoder_env = demo_env\<lparr>which_cwebp := False\<rparr>"

definition offline_env :: env where
  "offline_env = demo_env\<lparr>fetch := (\<lambda>url. FetchThrows ''fetch failed'')\<rparr>"

text \<open>The same world with a mapping file that cannot be written.\<close>

definition readonly_env :: env where
  "readonly_env = demo_env\<lparr>writeFileSync_error := Some ''EACCES: permission denied, open''\<rparr>"

text \<open>
  A list in which an id repeats (the data model excludes it): the first film again,
  with no images.
\<close>

definition castle_again :: film where
  "castle_again = \<lparr>film_id = ''2baf70d1'', film_title = ''Castle in the Sky'',
                    film_image = None, film_movie_banner = None\<rparr>"

definition repeating_env :: env where
  "repeating_env = demo_env\<lparr>fetch := (\<lambda>url. FetchJson [castle, castle_again])\<rparr>"

text \<open>A mapping as the lookup helpers import it, and what it means to hold paths.\<close>

definition stores_paths :: "image_mapping \<Rightarrow> bool" where
  "stores_paths m = (\<forall>k en. m k = Some en \<longrightarrow> poster en \<noteq> Some [] \<and> banner en \<noteq> Some [])"

definition demo_mapping :: image_mapping where
  "demo_mapping =
     [''2baf70d1'' \<mapsto> \<lparr>poster = Some ''/images/2baf70d1-poster.webp'', banner = None\<rparr>]"

subsection \<open>The two helpers\<close>

lemma downloadFile_trace: "trace (snd (downloadFile e u d s)) = trace s @ [HttpsGet u d]"
  by (simp add: downloadFile_def Let_def split: response.splits)

lemma downloadFile_mapping_file: "mapping_file (snd (downloadFile e u d s)) = mapping_file s"
  by (simp add: downloadFile_def Let_def split: response.splits)

lemma downloadFile_Inr:
  "downloadFile e u d s = (Inr x, s1) \<Longrightarrow> download_ok e (Some u) d \<and> map_of (files s1) d \<noteq> None"
  by (auto simp: downloadFile_def download_ok_def Let_def update_conv' split: response.splits if_splits)

lemma downloadFile_Inl:
  "downloadFile e u d s = (Inl msg, s1) \<Longrightarrow> \<not> download_ok e (Some u) d"
  by (auto simp: downloadFile_def download_ok_def Let_def split: response.splits if_splits)

lemma convertToWebP_Inr:
  "convertToWebP e i out None s = (Inr x, s2) \<Longrightarrow> convert_ok e i out"
  by (auto simp: convertToWebP_def convert_ok_def Let_def split: exec_result.splits option.splits)

lemma convertToWebP_Inl:
  "convertToWebP e i out None s = (Inl msg, s2) \<Longrightarrow> map_of (files s) i \<noteq> None \<Longrightarrow> \<not> convert_ok e i out"
  by (auto simp: convertToWebP_def convert_ok_def Let_def update_conv' split: exec_result.splits option.splits if_splits)

lemma process_poster_mapping:
  "m (film_id f) = Some en \<Longrightarrow>
   fst (process_poster e f (m, c, s)) =
     (if poster_ok e f then m(film_id f \<mapsto> en\<lparr>poster := Some (''/images/'' @ film_id f @ ''-poster.webp'')\<rparr>) else m)"
  unfolding process_poster_def poster_ok_def has_url_def
  by (auto simp: Let_def poster_temp_def poster_final_def download_ok_def split: option.splits prod.splits sum.splits
      dest: downloadFile_Inr downloadFile_Inl convertToWebP_Inr convertToWebP_Inl)

lemma process_poster_count:
  "m (film_id f) = Some en \<Longrightarrow>
   fst (snd (process_poster e f (m, c, s))) = (if poster_ok e f then c + 1 else c)"
  unfolding process_poster_def poster_ok_def has_url_def
  by (auto simp: Let_def poster_temp_def poster_final_def download_ok_def split: option.splits prod.splits sum.splits
      dest: downloadFile_Inr downloadFile_Inl convertToWebP_Inr convertToWebP_Inl)

subsection \<open>The loop: mapping and count\<close>

lemma http_gets_append: "http_gets (xs @ ys) = http_gets xs @ http_gets ys"
  by (induction xs rule: http_gets.induct) simp_all

lemma execs_append: "execs (xs @ ys) = execs xs @ execs ys"
  by (induction xs rule: execs.induct) simp_all

lemma decimal_60: "decimal 60 = ''60''"
  by code_simp

lemma process_banner_mapping:
  "m (film_id f) = Some en \<Longrightarrow>
   fst (process_banner e f (m, c, s)) =
     (if banner_ok e f then m(film_id f \<mapsto> en\<lparr>banner := Some (banner_path f)\<rparr>) else m)"
  unfolding process_banner_def banner_ok_def has_url_def banner_path_def
  by (auto simp: Let_def banner_temp_def banner_final_def download_ok_def split: option.splits prod.splits sum.splits
      dest: downloadFile_Inr downloadFile_Inl convertToWebP_Inr convertToWebP_Inl)

lemma process_banner_count:
  "m (film_id f) = Some en \<Longrightarrow>
   fst (snd (process_banner e f (m, c, s))) = (if banner_ok e f then c + 1 else c)"
  unfolding process_banner_def banner_ok_def has_url_def
  by (auto simp: Let_def banner_temp_def banner_final_def download_ok_def split: option.splits prod.splits sum.splits
      dest: downloadFile_Inr downloadFile_Inl convertToWebP_Inr convertToWebP_Inl)

lemma process_poster_key:
  "m k = Some en \<Longrightarrow> \<exists>en'. fst (process_poster e f (m, c, s)) k = Some en'"
  unfolding process_poster_def
  by (auto simp: Let_def split: option.splits prod.splits sum.splits)

lemma process_film_mapping:
  "fst (process_film e f (m, c, s)) = m(film_id f \<mapsto> expected_entry e f)"
proof -
  let ?m0 = "m(film_id f \<mapsto> \<lparr>poster = None, banner = None\<rparr>)"
  obtain m1 c1 s1 where p: "process_poster e f (?m0, c, s) = (m1, c1, s1)"
    by (cases "process_poster e f (?m0, c, s)") auto
  have m1: "m1 = (if poster_ok e f then ?m0(film_id f \<mapsto> \<lparr>poster = Some (poster_path f), banner = None\<rparr>) else ?m0)"
    using process_poster_mapping [of ?m0 f "\<lparr>poster = None, banner = None\<rparr>" e c s] p
    by (simp add: poster_path_def)
  show ?thesis
  proof (cases "poster_ok e f")
    case True
    with m1 have k: "m1 (film_id f) = Some \<lparr>poster = Some (poster_path f), banner = None\<rparr>" by simp
    show ?thesis
      using process_banner_mapping [of m1 f _ e c1 s1] k p m1 True
      by (auto simp: process_film_def expected_entry_def)
  next
    case False
    with m1 have k: "m1 (film_id f) = Some \<lparr>poster = None, banner = None\<rparr>" by simp
    show ?thesis
      using process_banner_mapping [of m1 f _ e c1 s1] k p m1 False
      by (auto simp: process_film_def expected_entry_def)
  qed
qed

lemma process_film_count:
  "fst (snd (process_film e f (m, c, s))) =
     c + (if poster_ok e f then 1 else 0) + (if banner_ok e f then 1 else 0)"
proof -
  let ?m0 = "m(film_id f \<mapsto> \<lparr>poster = None, banner = None\<rparr>)"
  obtain m1 c1 s1 where p: "process_poster e f (?m0, c, s) = (m1, c1, s1)"
    by (cases "process_poster e f (?m0, c, s)") auto
  have c1: "c1 = (if poster_ok e f then c + 1 else c)"
    using process_poster_count [of ?m0 f _ e c s] p by simp
  obtain en where k: "m1 (film_id f) = Some en"
    using process_poster_key [of ?m0 "film_id f" _ e f c s] p by auto
  show ?thesis
    using process_banner_count [of m1 f en e c1 s1] k p c1
    by (simp add: process_film_def)
qed

lemma process_films_mapping:
  "fst (process_films e films (m, c, s)) = built_mapping e films m"
proof (induction films arbitrary: m c s)
  case Nil
  then show ?case by (simp add: built_mapping_def)
next
  case (Cons f films)
  obtain m1 c1 s1 where p: "process_film e f (m, c, s) = (m1, c1, s1)"
    by (cases "process_film e f (m, c, s)") auto
  with process_film_mapping [of e f m c s] have m1: "m1 = m(film_id f \<mapsto> expected_entry e f)" by simp
  have "fst (process_films e (f # films) (m, c, s)) = fst (process_films e films (m1, c1, s1))"
    using p by simp
  also have "\<dots> = built_mapping e films m1"
    by (rule Cons.IH)
  also have "\<dots> = built_mapping e (f # films) m"
    unfolding m1 built_mapping_def by simp
  finally show ?case .
qed

lemma process_films_count:
  "fst (snd (process_films e films (m, c, s))) =
     c + length (filter (poster_ok e) films) + length (filter (banner_ok e) films)"
proof (induction films arbitrary: m c s)
  case Nil
  then show ?case by simp
next
  case (Cons f films)
  obtain m1 c1 s1 where p: "process_film e f (m, c, s) = (m1, c1, s1)"
    by (cases "process_film e f (m, c, s)") auto
  with process_film_count [of e f m c s]
  have "c1 = c + (if poster_ok e f then 1 else 0) + (if banner_ok e f then 1 else 0)" by simp
  with Cons.IH [of m1 c1 s1] p show ?case by simp
qed

subsection \<open>The built mapping\<close>

lemma built_mapping_Cons:
  "built_mapping e (g # films) m = built_mapping e films (m(film_id g \<mapsto> expected_entry e g))"
  by (simp add: built_mapping_def)

lemma built_mapping_other: "k \<notin> film_id ` set films \<Longrightarrow> built_mapping e films m k = m k"
  unfolding built_mapping_def by (induction films arbitrary: m) auto

lemma built_mapping_dom: "dom (built_mapping e films m) = dom m \<union> film_id ` set films"
  unfolding built_mapping_def by (induction films arbitrary: m) auto

lemma built_mapping_distinct:
  "distinct (map film_id films) \<Longrightarrow> f \<in> set films \<Longrightarrow>
   built_mapping e films m (film_id f) = Some (expected_entry e f)"
proof (induction films arbitrary: m)
  case Nil
  then show ?case by simp
next
  case (Cons g films)
  have step: "built_mapping e (g # films) m = built_mapping e films (m(film_id g \<mapsto> expected_entry e g))"
    by (simp add: built_mapping_def)
  show ?case
  proof (cases "f \<in> set films")
    case True
    with Cons show ?thesis unfolding step by simp
  next
    case False
    with Cons.prems have fg: "f = g" by simp
    from Cons.prems have "film_id g \<notin> film_id ` set films" by simp
    then show ?thesis unfolding step fg by (simp add: built_mapping_other)
  qed
qed

lemma built_mapping_cases:
  "built_mapping e films m k = Some en \<Longrightarrow>
   m k = Some en \<or> (\<exists>f \<in> set films. k = film_id f \<and> en = expected_entry e f)"
proof (induction films arbitrary: m)
  case Nil
  then show ?case by (simp add: built_mapping_def)
next
  case (Cons g films)
  from Cons.prems
  have "built_mapping e films (m(film_id g \<mapsto> expected_entry e g)) k = Some en"
    unfolding built_mapping_Cons .
  from Cons.IH [OF this] show ?case by (auto split: if_splits)
qed

lemma with_poster_upd:
  "k \<notin> dom m \<Longrightarrow> with_poster (m(k \<mapsto> en)) = (if poster en \<noteq> None then insert k (with_poster m) else with_poster m)"
  unfolding with_poster_def by (auto simp: dom_def)

lemma with_banner_upd:
  "k \<notin> dom m \<Longrightarrow> with_banner (m(k \<mapsto> en)) = (if banner en \<noteq> None then insert k (with_banner m) else with_banner m)"
  unfolding with_banner_def by (auto simp: dom_def)

lemma with_poster_dom: "with_poster m \<subseteq> dom m"
  unfolding with_poster_def by auto

lemma with_banner_dom: "with_banner m \<subseteq> dom m"
  unfolding with_banner_def by auto

lemma card_with_poster:
  "finite (dom m) \<Longrightarrow> distinct (map film_id films) \<Longrightarrow> dom m \<inter> film_id ` set films = {} \<Longrightarrow>
   card (with_poster (built_mapping e films m)) = card (with_poster m) + length (filter (poster_ok e) films)"
proof (induction films arbitrary: m)
  case Nil
  then show ?case by (simp add: built_mapping_def)
next
  case (Cons g films)
  let ?m1 = "m(film_id g \<mapsto> expected_entry e g)"
  have step: "built_mapping e (g # films) m = built_mapping e films ?m1"
    by (simp add: built_mapping_def)
  from Cons.prems have fresh: "film_id g \<notin> dom m" by auto
  have fin: "finite (with_poster m)"
    using Cons.prems(1) with_poster_dom finite_subset by blast
  have notin: "film_id g \<notin> with_poster m"
    using fresh with_poster_dom by blast
  have c1: "card (with_poster ?m1) = card (with_poster m) + (if poster_ok e g then 1 else 0)"
    using fin notin by (simp add: with_poster_upd [OF fresh] expected_entry_def)
  have d1: "dom ?m1 = insert (film_id g) (dom m)" by simp
  have fin1: "finite (dom ?m1)" unfolding d1 using Cons.prems(1) by simp
  have dist1: "distinct (map film_id films)" using Cons.prems(2) by simp
  have disj1: "dom ?m1 \<inter> film_id ` set films = {}" unfolding d1 using Cons.prems(2,3) by auto
  have "card (with_poster (built_mapping e films ?m1)) = card (with_poster ?m1) + length (filter (poster_ok e) films)"
    by (rule Cons.IH [OF fin1 dist1 disj1])
  with c1 show ?case unfolding step by simp
qed

lemma card_with_banner:
  "finite (dom m) \<Longrightarrow> distinct (map film_id films) \<Longrightarrow> dom m \<inter> film_id ` set films = {} \<Longrightarrow>
   card (with_banner (built_mapping e films m)) = card (with_banner m) + length (filter (banner_ok e) films)"
proof (induction films arbitrary: m)
  case Nil
  then show ?case by (simp add: built_mapping_def)
next
  case (Cons g films)
  let ?m1 = "m(film_id g \<mapsto> expected_entry e g)"
  have step: "built_mapping e (g # films) m = built_mapping e films ?m1"
    by (simp add: built_mapping_def)
  from Cons.prems have fresh: "film_id g \<notin> dom m" by auto
  have fin: "finite (with_banner m)"
    using Cons.prems(1) with_banner_dom finite_subset by blast
  have notin: "film_id g \<notin> with_banner m"
    using fresh with_banner_dom by blast
  have c1: "card (with_banner ?m1) = card (with_banner m) + (if banner_ok e g then 1 else 0)"
    using fin notin by (simp add: with_banner_upd [OF fresh] expected_entry_def)
  have d1: "dom ?m1 = insert (film_id g) (dom m)" by simp
  have fin1: "finite (dom ?m1)" unfolding d1 using Cons.prems(1) by simp
  have dist1: "distinct (map film_id films)" using Cons.prems(2) by simp
  have disj1: "dom ?m1 \<inter> film_id ` set films = {}" unfolding d1 using Cons.prems(2,3) by auto
  have "card (with_banner (built_mapping e films ?m1)) = card (with_banner ?m1) + length (filter (banner_ok e) films)"
    by (rule Cons.IH [OF fin1 dist1 disj1])
  with c1 show ?case unfolding step by simp
qed

subsection \<open>The helpers' effect on the state\<close>

lemma convertToWebP_trace_prefix: "prefix (trace s) (trace (snd (convertToWebP e i out q s)))"
  by (auto simp: convertToWebP_def Let_def log_error_def split: exec_result.splits option.splits)

lemma convertToWebP_mapping_file: "mapping_file (snd (convertToWebP e i out q s)) = mapping_file s"
  by (auto simp: convertToWebP_def Let_def log_error_def split: exec_result.splits option.splits)

lemma convertToWebP_http_gets: "http_gets (trace (snd (convertToWebP e i out q s))) = http_gets (trace s)"
  by (auto simp: convertToWebP_def Let_def log_error_def http_gets_append split: exec_result.splits option.splits)

lemma convertToWebP_execs:
  "execs (trace (snd (convertToWebP e (stem @ ''.jpg'') (stem @ ''.webp'') None s))) = execs (trace s) @ [convert_command stem]"
  by (auto simp: convertToWebP_def Let_def log_error_def execs_append convert_command_def decimal_60
      split: exec_result.splits option.splits)

lemma downloadFile_execs: "execs (trace (snd (downloadFile e u d s))) = execs (trace s)"
  by (simp add: downloadFile_trace execs_append)

lemma downloadFile_http_gets: "http_gets (trace (snd (downloadFile e u d s))) = http_gets (trace s) @ [(u, d)]"
  by (simp add: downloadFile_trace http_gets_append)

subsection \<open>The loop: trace and mapping file\<close>

lemma poster_temp_stem: "poster_temp e f = path_join (IMAGES_DIR e) (film_id f @ ''-poster'') @ ''.jpg''"
  by (simp add: poster_temp_def path_join_def)
lemma poster_final_stem: "poster_final e f = path_join (IMAGES_DIR e) (film_id f @ ''-poster'') @ ''.webp''"
  by (simp add: poster_final_def path_join_def)
lemma banner_temp_stem: "banner_temp e f = path_join (IMAGES_DIR e) (film_id f @ ''-banner'') @ ''.jpg''"
  by (simp add: banner_temp_def path_join_def)
lemma banner_final_stem: "banner_final e f = path_join (IMAGES_DIR e) (film_id f @ ''-banner'') @ ''.webp''"
  by (simp add: banner_final_def path_join_def)

lemma stem_paths:
  "path_join d (x @ ''-poster.jpg'') = path_join d (x @ ''-poster'') @ ''.jpg''"
  "path_join d (x @ ''-poster.webp'') = path_join d (x @ ''-poster'') @ ''.webp''"
  "path_join d (x @ ''-banner.jpg'') = path_join d (x @ ''-banner'') @ ''.jpg''"
  "path_join d (x @ ''-banner.webp'') = path_join d (x @ ''-banner'') @ ''.webp''"
  by (simp_all add: path_join_def)

lemma downloadFile_state:
  assumes "downloadFile e u d s = (r, s1)"
  shows "trace s1 = trace s @ [HttpsGet u d]" and "mapping_file s1 = mapping_file s"
    and "(\<exists>x. r = Inr x) = download_ok e (Some u) d"
  using assms
  by (auto simp: downloadFile_def download_ok_def Let_def split: response.splits if_splits)

lemma convertToWebP_state:
  assumes "convertToWebP e (stem @ ''.jpg'') (stem @ ''.webp'') None s = (r, s2)"
  shows "execs (trace s2) = execs (trace s) @ [convert_command stem]"
    and "http_gets (trace s2) = http_gets (trace s)"
    and "mapping_file s2 = mapping_file s"
    and "prefix (trace s) (trace s2)"
  using convertToWebP_execs [of e stem s] convertToWebP_http_gets [of e "stem @ ''.jpg''" "stem @ ''.webp''" None s]
    convertToWebP_mapping_file [of e "stem @ ''.jpg''" "stem @ ''.webp''" None s]
    convertToWebP_trace_prefix [of s e "stem @ ''.jpg''" "stem @ ''.webp''" None] assms
  by simp_all

lemma process_poster_state:
  assumes "process_poster e f (m, c, s) = (m', c', s')"
  shows "mapping_file s' = mapping_file s"
    and "prefix (trace s) (trace s')"
    and "http_gets (trace s') = http_gets (trace s) @ attempt (film_image f) (poster_temp e f)"
    and "execs (trace s') = execs (trace s) @ conversion e (film_image f) (path_join (IMAGES_DIR e) (film_id f @ ''-poster''))"
proof -
  let ?stem = "path_join (IMAGES_DIR e) (film_id f @ ''-poster'')"
  have all: "mapping_file s' = mapping_file s \<and> prefix (trace s) (trace s') \<and>
    http_gets (trace s') = http_gets (trace s) @ attempt (film_image f) (poster_temp e f) \<and>
    execs (trace s') = execs (trace s) @ conversion e (film_image f) ?stem"
  proof (cases "has_url (film_image f)")
    case False
    with assms show ?thesis
      by (auto simp: process_poster_def has_url_def attempt_def conversion_def split: option.splits)
  next
    case True
    then obtain u where u: "film_image f = Some u" "u \<noteq> []"
      by (auto simp: has_url_def split: option.splits)
    obtain r s1 where d: "downloadFile e u (?stem @ ''.jpg'') s = (r, s1)"
      by (cases "downloadFile e u (?stem @ ''.jpg'') s") auto
    note ds = downloadFile_state [OF d]
    show ?thesis
    proof (cases r)
      case (Inl msg)
      with ds(3) have "\<not> download_ok e (Some u) (?stem @ ''.jpg'')" by auto
      with assms u d Inl ds(1,2) show ?thesis
        by (auto simp: process_poster_def Let_def stem_paths poster_temp_stem poster_final_stem attempt_def conversion_def
            log_error_def http_gets_append execs_append)
    next
      case (Inr x)
      with ds(3) have ok: "download_ok e (Some u) (?stem @ ''.jpg'')" by auto
      obtain r2 s2 where cv: "convertToWebP e (?stem @ ''.jpg'') (?stem @ ''.webp'') None s1 = (r2, s2)"
        by (cases "convertToWebP e (?stem @ ''.jpg'') (?stem @ ''.webp'') None s1") auto
      note cs = convertToWebP_state [OF cv]
      have p1: "prefix (trace s) (trace s2)"
        using cs(4) ds(1) by (auto simp: prefix_def)
      from assms u d Inr cv ok ds(1,2) cs(1,2,3) p1 show ?thesis
        by (auto simp: process_poster_def Let_def stem_paths poster_temp_stem poster_final_stem attempt_def conversion_def
            log_error_def http_gets_append execs_append has_url_def prefix_def split: sum.splits option.splits)
    qed
  qed
  from all show "mapping_file s' = mapping_file s"
    and "prefix (trace s) (trace s')"
    and "http_gets (trace s') = http_gets (trace s) @ attempt (film_image f) (poster_temp e f)"
    and "execs (trace s') = execs (trace s) @ conversion e (film_image f) ?stem"
    by simp_all
qed


lemma process_banner_state:
  assumes "process_banner e f (m, c, s) = (m', c', s')"
  shows "mapping_file s' = mapping_file s"
    and "prefix (trace s) (trace s')"
    and "http_gets (trace s') = http_gets (trace s) @ attempt (film_movie_banner f) (banner_temp e f)"
    and "execs (trace s') = execs (trace s) @ conversion e (film_movie_banner f) (path_join (IMAGES_DIR e) (film_id f @ ''-banner''))"
proof -
  let ?stem = "path_join (IMAGES_DIR e) (film_id f @ ''-banner'')"
  have all: "mapping_file s' = mapping_file s \<and> prefix (trace s) (trace s') \<and>
    http_gets (trace s') = http_gets (trace s) @ attempt (film_movie_banner f) (banner_temp e f) \<and>
    execs (trace s') = execs (trace s) @ conversion e (film_movie_banner f) ?stem"
  proof (cases "has_url (film_movie_banner f)")
    case False
    with assms show ?thesis
      by (auto simp: process_banner_def has_url_def attempt_def conversion_def split: option.splits)
  next
    case True
    then obtain u where u: "film_movie_banner f = Some u" "u \<noteq> []"
      by (auto simp: has_url_def split: option.splits)
    obtain r s1 where d: "downloadFile e u (?stem @ ''.jpg'') s = (r, s1)"
      by (cases "downloadFile e u (?stem @ ''.jpg'') s") auto
    note ds = downloadFile_state [OF d]
    show ?thesis
    proof (cases r)
      case (Inl msg)
      with ds(3) have "\<not> download_ok e (Some u) (?stem @ ''.jpg'')" by auto
      with assms u d Inl ds(1,2) show ?thesis
        by (auto simp: process_banner_def Let_def stem_paths banner_temp_stem banner_final_stem attempt_def conversion_def
            log_error_def http_gets_append execs_append)
    next
      case (Inr x)
      with ds(3) have ok: "download_ok e (Some u) (?stem @ ''.jpg'')" by auto
      obtain r2 s2 where cv: "convertToWebP e (?stem @ ''.jpg'') (?stem @ ''.webp'') None s1 = (r2, s2)"
        by (cases "convertToWebP e (?stem @ ''.jpg'') (?stem @ ''.webp'') None s1") auto
      note cs = convertToWebP_state [OF cv]
      have p1: "prefix (trace s) (trace s2)"
        using cs(4) ds(1) by (auto simp: prefix_def)
      from assms u d Inr cv ok ds(1,2) cs(1,2,3) p1 show ?thesis
        by (auto simp: process_banner_def Let_def stem_paths banner_temp_stem banner_final_stem attempt_def conversion_def
            log_error_def http_gets_append execs_append has_url_def prefix_def split: sum.splits option.splits)
    qed
  qed
  from all show "mapping_file s' = mapping_file s"
    and "prefix (trace s) (trace s')"
    and "http_gets (trace s') = http_gets (trace s) @ attempt (film_movie_banner f) (banner_temp e f)"
    and "execs (trace s') = execs (trace s) @ conversion e (film_movie_banner f) ?stem"
    by simp_all
qed


lemma process_film_state:
  assumes "process_film e f (m, c, s) = (m', c', s')"
  shows "mapping_file s' = mapping_file s"
    and "prefix (trace s) (trace s')"
    and "http_gets (trace s') = http_gets (trace s) @ attempts e f"
    and "execs (trace s') = execs (trace s) @ conversions e f"
proof -
  let ?m0 = "m(film_id f \<mapsto> \<lparr>poster = None, banner = None\<rparr>)"
  obtain m1 c1 s1 where p: "process_poster e f (?m0, c, s) = (m1, c1, s1)"
    by (cases "process_poster e f (?m0, c, s)") auto
  with assms have b: "process_banner e f (m1, c1, s1) = (m', c', s')"
    by (simp add: process_film_def)
  note ps = process_poster_state [OF p] and bs = process_banner_state [OF b]
  show "mapping_file s' = mapping_file s" using ps(1) bs(1) by simp
  show "prefix (trace s) (trace s')" using ps(2) bs(2) by (rule prefix_order.trans)
  show "http_gets (trace s') = http_gets (trace s) @ attempts e f"
    using ps(3) bs(3) by (simp add: attempts_def)
  show "execs (trace s') = execs (trace s) @ conversions e f"
    using ps(4) bs(4) by (simp add: conversions_def)
qed

lemma process_films_state:
  assumes "process_films e films (m, c, s) = (m', c', s')"
  shows "mapping_file s' = mapping_file s"
    and "prefix (trace s) (trace s')"
    and "http_gets (trace s') = http_gets (trace s) @ concat (map (attempts e) films)"
    and "execs (trace s') = execs (trace s) @ concat (map (conversions e) films)"
proof -
  have "mapping_file s' = mapping_file s \<and> prefix (trace s) (trace s') \<and>
    http_gets (trace s') = http_gets (trace s) @ concat (map (attempts e) films) \<and>
    execs (trace s') = execs (trace s) @ concat (map (conversions e) films)"
    using assms
  proof (induction films arbitrary: m c s)
    case Nil
    then show ?case by simp
  next
    case (Cons f films)
    obtain m1 c1 s1 where p: "process_film e f (m, c, s) = (m1, c1, s1)"
      by (cases "process_film e f (m, c, s)") auto
    with Cons.prems have r: "process_films e films (m1, c1, s1) = (m', c', s')" by simp
    note fs = process_film_state [OF p] and ih = Cons.IH [OF r]
    have "prefix (trace s) (trace s')"
      using fs(2) ih by (blast intro: prefix_order.trans)
    with fs ih show ?case by simp
  qed
  then show "mapping_file s' = mapping_file s"
    and "prefix (trace s) (trace s')"
    and "http_gets (trace s') = http_gets (trace s) @ concat (map (attempts e) films)"
    and "execs (trace s') = execs (trace s) @ concat (map (conversions e) films)"
    by simp_all
qed


subsection \<open>A run that completes\<close>

lemma main_completes:
  assumes "run_completes e films"
  shows "exit_code (main e s0) = 0"
    and "mapping_file (final (main e s0)) = Some (built_mapping e films Map.empty)"
    and "\<exists>sm. printed (main e s0) = Some sm \<and>
           downloadedCount sm = length (filter (poster_ok e) films) + length (filter (banner_ok e) films) \<and>
           totalImages sm = length films * 2"
proof -
  let ?s2 = "s0\<lparr>trace := trace s0 @ [Exec ''which cwebp''] @ [Fetch (API_BASE @ ''/films'')]\<rparr>"
  obtain m c s3 where p: "process_films e films (Map.empty, 0, ?s2) = (m, c, s3)"
    by (cases "process_films e films (Map.empty, 0, ?s2)") auto
  have m: "m = built_mapping e films Map.empty"
    using process_films_mapping [of e films Map.empty 0 ?s2] p by simp
  have c: "c = length (filter (poster_ok e) films) + length (filter (banner_ok e) films)"
    using process_films_count [of e films Map.empty 0 ?s2] p by simp
  show "exit_code (main e s0) = 0"
    using assms p by (simp add: main_def run_completes_def mapping_writable_def Let_def)
  show "mapping_file (final (main e s0)) = Some (built_mapping e films Map.empty)"
    using assms p m by (simp add: main_def run_completes_def mapping_writable_def Let_def)
  show "\<exists>sm. printed (main e s0) = Some sm \<and>
           downloadedCount sm = length (filter (poster_ok e) films) + length (filter (banner_ok e) films) \<and>
           totalImages sm = length films * 2"
    using assms p c by (simp add: main_def run_completes_def mapping_writable_def Let_def)
qed


subsection \<open>Every run of main\<close>

lemma Exec_in_trace: "Exec c \<in> set tr \<longleftrightarrow> c \<in> set (execs tr)"
  by (induction tr rule: execs.induct) auto

lemma HttpsGet_in_trace: "HttpsGet u d \<in> set tr \<longleftrightarrow> (u, d) \<in> set (http_gets tr)"
  by (induction tr rule: http_gets.induct) auto

lemma convert_command_not_probe:
  "convert_command stem \<noteq> ''which cwebp''" "''which cwebp'' \<noteq> convert_command stem"
  by (simp_all add: convert_command_def)

lemma conversions_not_probe: "''which cwebp'' \<notin> set (conversions e f)"
  by (auto simp: conversions_def conversion_def convert_command_not_probe)

lemma conversions_form: "c \<in> set (conversions e f) \<Longrightarrow> \<exists>stem. c = convert_command stem"
  by (auto simp: conversions_def conversion_def split: if_splits)

lemma main_no_encoder:
  assumes "\<not> which_cwebp e"
  shows "exit_code (main e s0) = 1"
    and "mapping_file (final (main e s0)) = mapping_file s0"
    and "files (final (main e s0)) = files s0"
    and "trace (final (main e s0)) = trace s0 @
          [Exec ''which cwebp'',
           ConsoleError [''Error: cwebp not found. Please install webp tools:''],
           ConsoleError [''   macOS: brew install webp''],
           ConsoleError [''   Linux: apt-get install webp'']]"
  using assms by (simp_all add: main_def log_error_def Let_def)

lemma main_fetch_throws:
  assumes "which_cwebp e" "fetch e (API_BASE @ ''/films'') = FetchThrows msg"
  shows "exit_code (main e s0) = 1"
    and "mapping_file (final (main e s0)) = mapping_file s0"
    and "trace (final (main e s0)) = trace s0 @
          [Exec ''which cwebp'', Fetch (API_BASE @ ''/films''), ConsoleError [''Error:'', msg]]"
  using assms by (simp_all add: main_def log_error_def Let_def)

lemma main_fetched:
  assumes "which_cwebp e" "fetch e (API_BASE @ ''/films'') = FetchJson films"
  shows "exit_code (main e s0) = (if mapping_writable e then 0 else 1)"
    and "mapping_file (final (main e s0)) =
           (if mapping_writable e then Some (built_mapping e films Map.empty) else mapping_file s0)"
    and "http_gets (trace (final (main e s0))) = http_gets (trace s0) @ concat (map (attempts e) films)"
    and "execs (trace (final (main e s0))) = execs (trace s0) @ ''which cwebp'' # concat (map (conversions e) films)"
    and "prefix (trace s0 @ [Exec ''which cwebp'', Fetch (API_BASE @ ''/films'')]) (trace (final (main e s0)))"
proof -
  let ?s2 = "s0\<lparr>trace := trace s0 @ [Exec ''which cwebp''] @ [Fetch (API_BASE @ ''/films'')]\<rparr>"
  obtain m c s3 where p: "process_films e films (Map.empty, 0, ?s2) = (m, c, s3)"
    by (cases "process_films e films (Map.empty, 0, ?s2)") auto
  have m: "m = built_mapping e films Map.empty"
    using process_films_mapping [of e films Map.empty 0 ?s2] p by simp
  note st = process_films_state [OF p]
  have fin: "final (main e s0) =
      (if mapping_writable e then s3\<lparr>mapping_file := Some m\<rparr>
       else log_error [''Error:'', the (writeFileSync_error e)] s3)"
    and ex: "exit_code (main e s0) = (if mapping_writable e then 0 else 1)"
    using assms p by (simp_all add: main_def Let_def mapping_writable_def split: option.splits)
  show "exit_code (main e s0) = (if mapping_writable e then 0 else 1)" by (rule ex)
  show "mapping_file (final (main e s0)) =
           (if mapping_writable e then Some (built_mapping e films Map.empty) else mapping_file s0)"
    using st(1) m by (simp add: fin log_error_def)
  show "http_gets (trace (final (main e s0))) = http_gets (trace s0) @ concat (map (attempts e) films)"
    using st(3) by (simp add: fin log_error_def http_gets_append)
  show "execs (trace (final (main e s0))) = execs (trace s0) @ ''which cwebp'' # concat (map (conversions e) films)"
    using st(4) by (simp add: fin log_error_def execs_append)
  show "prefix (trace s0 @ [Exec ''which cwebp'', Fetch (API_BASE @ ''/films'')]) (trace (final (main e s0)))"
    using st(2) by (auto simp: fin log_error_def prefix_def)
qed

lemma main_trace_extends: "prefix (trace s0 @ [Exec ''which cwebp'']) (trace (final (main e s0)))"
proof (cases "which_cwebp e")
  case False
  then show ?thesis by (simp add: main_no_encoder(4) prefix_def)
next
  case True
  show ?thesis
  proof (cases "fetch e (API_BASE @ ''/films'')")
    case (FetchThrows msg)
    with True show ?thesis by (simp add: main_fetch_throws(3) prefix_def)
  next
    case (FetchJson films)
    from main_fetched(5) [OF True FetchJson, of s0] show ?thesis
      by (auto simp: prefix_def)
  qed
qed

lemma main_execs:
  "\<exists>cs. execs (trace (final (main e s0))) = execs (trace s0) @ ''which cwebp'' # cs \<and>
        (\<forall>c \<in> set cs. \<exists>stem. c = convert_command stem)"
proof (cases "which_cwebp e")
  case False
  then show ?thesis by (simp add: main_no_encoder(4) execs_append)
next
  case True
  show ?thesis
  proof (cases "fetch e (API_BASE @ ''/films'')")
    case (FetchThrows msg)
    with True show ?thesis by (simp add: main_fetch_throws(3) execs_append)
  next
    case (FetchJson films)
    from main_fetched(4) [OF True FetchJson, of s0] show ?thesis
      by (auto dest: conversions_form)
  qed
qed

lemma main_exit_code:
  "exit_code (main e s0) = (if \<exists>films. run_completes e films then 0 else 1)"
proof (cases "which_cwebp e")
  case False
  then show ?thesis by (simp add: main_no_encoder(1) run_completes_def)
next
  case True
  show ?thesis
  proof (cases "fetch e (API_BASE @ ''/films'')")
    case (FetchThrows msg)
    with True show ?thesis by (simp add: main_fetch_throws(1) run_completes_def)
  next
    case (FetchJson films)
    with True show ?thesis by (simp add: main_fetched(1) run_completes_def)
  qed
qed

lemma main_mapping_file:
  "mapping_file (final (main e s0)) =
     (case fetch e (API_BASE @ ''/films'') of
        FetchJson films \<Rightarrow> if which_cwebp e \<and> mapping_writable e
                            then Some (built_mapping e films Map.empty) else mapping_file s0
      | FetchThrows msg \<Rightarrow> mapping_file s0)"
proof (cases "which_cwebp e")
  case False
  then show ?thesis by (simp add: main_no_encoder(2) split: fetch_result.splits)
next
  case True
  show ?thesis
  proof (cases "fetch e (API_BASE @ ''/films'')")
    case (FetchThrows msg)
    with True show ?thesis by (simp add: main_fetch_throws(2))
  next
    case (FetchJson films)
    with True show ?thesis by (simp add: main_fetched(2))
  qed
qed


subsection \<open>Download attempts and temporary paths\<close>

lemma temp_paths_apart:
  "poster_temp e f = poster_temp e g \<longleftrightarrow> film_id f = film_id g"
  "banner_temp e g \<noteq> poster_temp e f"
proof -
  show "poster_temp e f = poster_temp e g \<longleftrightarrow> film_id f = film_id g"
    by (simp add: poster_temp_def path_join_def)
  have "film_id g @ ''-banner.jpg'' \<noteq> film_id f @ ''-poster.jpg''"
  proof
    assume "film_id g @ ''-banner.jpg'' = film_id f @ ''-poster.jpg''"
    then have "''-banner.jpg'' = ''-poster.jpg''"
      by (subst (asm) append_eq_append_conv) simp_all
    then show False by simp
  qed
  then show "banner_temp e g \<noteq> poster_temp e f"
    by (simp add: poster_temp_def banner_temp_def path_join_def)
qed

lemma attempt_mem: "(u, d) \<in> set (attempt v d') \<longleftrightarrow> v = Some u \<and> u \<noteq> [] \<and> d = d'"
  by (auto simp: attempt_def split: option.splits)

lemma no_poster_attempt:
  assumes "distinct (map film_id films)" "f \<in> set films" "\<not> has_url (film_image f)"
  shows "(u, poster_temp e f) \<notin> set (concat (map (attempts e) films))"
proof
  assume "(u, poster_temp e f) \<in> set (concat (map (attempts e) films))"
  then obtain g where g: "g \<in> set films" "(u, poster_temp e f) \<in> set (attempts e g)" by auto
  from g(2) have "has_url (film_image g) \<and> poster_temp e g = poster_temp e f"
    using temp_paths_apart(2) [of e g f]
    by (auto simp: attempts_def attempt_mem has_url_def)
  then have hg: "has_url (film_image g)" and "film_id g = film_id f"
    by (simp_all add: temp_paths_apart(1))
  with assms(1,2) g(1) have "g = f"
    by (meson distinct_map inj_onD)
  with hg assms(3) show False by simp
qed


lemma main_probe_once:
  "\<exists>rest. trace (final (main e (start fs mf))) = Exec ''which cwebp'' # rest \<and>
          Exec ''which cwebp'' \<notin> set rest"
proof -
  let ?t = "trace (final (main e (start fs mf)))"
  from main_trace_extends [of "start fs mf" e] obtain rest where r: "?t = Exec ''which cwebp'' # rest"
    by (auto simp: prefix_def start_def)
  from main_execs [of e "start fs mf"] obtain cs where
    cs: "execs ?t = ''which cwebp'' # cs" "\<forall>c \<in> set cs. \<exists>stem. c = convert_command stem"
    by (auto simp: start_def)
  from r cs(1) have "execs rest = cs" by simp
  with cs(2) have "''which cwebp'' \<notin> set (execs rest)"
    using convert_command_not_probe(2) by blast
  then have "Exec ''which cwebp'' \<notin> set rest" by (simp add: Exec_in_trace)
  with r show ?thesis by blast
qed

subsection \<open>Conversion, its handlers, and the files left behind\<close>

lemma convertToWebP_command:
  "execs (trace (snd (convertToWebP e i out None s))) =
     execs (trace s) @ [''cwebp -q 60 '' @ dq @ i @ dq @ '' -o '' @ dq @ out @ dq]"
  by (auto simp: convertToWebP_def Let_def log_error_def execs_append decimal_60
      split: exec_result.splits option.splits)

lemma convertToWebP_success:
  assumes "cwebp e 60 i out = ExecOk len" and "map_of (files s) i \<noteq> None" and "i \<noteq> out"
  shows "fst (convertToWebP e i out None s) = Inr ()"
    and "map_of (files (snd (convertToWebP e i out None s))) i = None"
    and "map_of (files (snd (convertToWebP e i out None s))) out = Some len"
  using assms
  by (auto simp: convertToWebP_def Let_def update_conv' delete_conv' split: option.splits)

lemma convertToWebP_failure:
  assumes "cwebp e 60 i out = ExecError msg"
  shows "fst (convertToWebP e i out None s) = Inl msg"
    and "files (snd (convertToWebP e i out None s)) = files s"
    and "last (trace (snd (convertToWebP e i out None s))) = ConsoleError [''Failed to convert '' @ i @ '':'', msg]"
  using assms
  by (auto simp: convertToWebP_def Let_def log_error_def)

lemma downloadFile_status_leaves_file:
  "https_get e u d = Response code n \<Longrightarrow> code \<noteq> 200 \<Longrightarrow>
   map_of (files (snd (downloadFile e u d s))) d = Some 0"
  by (simp add: downloadFile_def Let_def update_conv')

lemma downloadFile_error_removes_file:
  "https_get e u d = RequestError msg \<Longrightarrow>
   map_of (files (snd (downloadFile e u d s))) d = None"
  by (simp add: downloadFile_def Let_def delete_conv')

lemma downloadFile_success_file:
  "https_get e u d = Response 200 n \<Longrightarrow>
   downloadFile e u d s = (Inr (), snd (downloadFile e u d s)) \<and>
   map_of (files (snd (downloadFile e u d s))) d = Some n"
  by (simp add: downloadFile_def Let_def update_conv')

lemma poster_handler:
  assumes "film_image f = Some u" "u \<noteq> []"
    and "https_get e u (poster_temp e f) = Response 200 n"
    and "cwebp e 60 (poster_temp e f) (poster_final e f) = ExecError msg"
  shows "\<exists>s'. process_poster e f (m, c, s) = (m, c, s') \<and>
           map_of (files s') (poster_temp e f) = Some n \<and>
           last (trace s') = ConsoleError [''Failed to process poster:'', msg]"
proof -
  obtain s1 where d: "downloadFile e u (poster_temp e f) s = (Inr (), s1)"
    and f1: "map_of (files s1) (poster_temp e f) = Some n"
    using downloadFile_success_file [OF assms(3), of s] by blast
  obtain s2 where c: "convertToWebP e (poster_temp e f) (poster_final e f) None s1 = (Inl msg, s2)"
    and f2: "files s2 = files s1"
    using convertToWebP_failure(1,2) [OF assms(4), of s1] by (metis prod.collapse)
  have "process_poster e f (m, c, s) = (m, c, log_error [''Failed to process poster:'', msg] s2)"
    using assms(1,2) d c by (simp add: process_poster_def Let_def poster_temp_def poster_final_def)
  moreover have "map_of (files (log_error [''Failed to process poster:'', msg] s2)) (poster_temp e f) = Some n"
    using f1 f2 by (simp add: log_error_def)
  moreover have "last (trace (log_error [''Failed to process poster:'', msg] s2)) =
      ConsoleError [''Failed to process poster:'', msg]"
    by (simp add: log_error_def)
  ultimately show ?thesis by blast
qed

lemma banner_handler:
  assumes "film_movie_banner f = Some u" "u \<noteq> []"
    and "https_get e u (banner_temp e f) = Response 200 n"
    and "cwebp e 60 (banner_temp e f) (banner_final e f) = ExecError msg"
  shows "\<exists>s'. process_banner e f (m, c, s) = (m, c, s') \<and>
           map_of (files s') (banner_temp e f) = Some n \<and>
           last (trace s') = ConsoleError [''Failed to process banner:'', msg]"
proof -
  obtain s1 where d: "downloadFile e u (banner_temp e f) s = (Inr (), s1)"
    and f1: "map_of (files s1) (banner_temp e f) = Some n"
    using downloadFile_success_file [OF assms(3), of s] by blast
  obtain s2 where c: "convertToWebP e (banner_temp e f) (banner_final e f) None s1 = (Inl msg, s2)"
    and f2: "files s2 = files s1"
    using convertToWebP_failure(1,2) [OF assms(4), of s1] by (metis prod.collapse)
  have "process_banner e f (m, c, s) = (m, c, log_error [''Failed to process banner:'', msg] s2)"
    using assms(1,2) d c by (simp add: process_banner_def Let_def banner_temp_def banner_final_def)
  moreover have "map_of (files (log_error [''Failed to process banner:'', msg] s2)) (banner_temp e f) = Some n"
    using f1 f2 by (simp add: log_error_def)
  moreover have "last (trace (log_error [''Failed to process banner:'', msg] s2)) =
      ConsoleError [''Failed to process banner:'', msg]"
    by (simp add: log_error_def)
  ultimately show ?thesis by blast
qed

lemma main_commands:
  "\<forall>c \<in> set (execs (trace (final (main e (start fs mf))))).
     c = ''which cwebp'' \<or>
     (\<exists>stem. c = ''cwebp -q 60 '' @ dq @ stem @ ''.jpg'' @ dq @ '' -o '' @ dq @ stem @ ''.webp'' @ dq)"
  using main_execs [of e "start fs mf"]
  by (auto simp: start_def convert_command_def)

lemma written_mapping_stores_paths: "stores_paths (built_mapping e films Map.empty)"
  unfolding stores_paths_def
proof (intro allI impI)
  fix k en
  assume "built_mapping e films Map.empty k = Some en"
  from built_mapping_cases [OF this] obtain f where "en = expected_entry e f" by auto
  then show "poster en \<noteq> Some [] \<and> banner en \<noteq> Some []"
    by (simp add: expected_entry_def poster_path_def banner_path_def)
qed

subsection \<open>The example run\<close>

lemmas demo_defs = demo_env_def demo_films_def castle_def totoro_def grave_def

lemma demo_completes: "run_completes demo_env demo_films"
  by (simp add: run_completes_def mapping_writable_def demo_env_def)

lemma demo_distinct: "distinct (map film_id demo_films)"
  by (simp add: demo_defs)

lemma demo_outcomes:
  "poster_ok demo_env castle" "\<not> banner_ok demo_env castle"
  "\<not> poster_ok demo_env totoro" "\<not> banner_ok demo_env totoro"
  "\<not> poster_ok demo_env grave" "\<not> banner_ok demo_env grave"
  by (simp_all add: poster_ok_def banner_ok_def has_url_def download_ok_def convert_ok_def
      poster_temp_def poster_final_def banner_temp_def banner_final_def path_join_def demo_defs)

subsection \<open>Film ids that repeat\<close>

text \<open>
  The statements below that speak of a film's entry take the film ids of the list
  to be unique, as the data model has them. This is what the loop does otherwise:
  the second film with an id resets the entry of the first, while the count keeps
  the first film's increments.
\<close>

lemma repeated_id_resets_entry:
  "(\<exists>sm. printed (main repeating_env (start [] None)) = Some sm \<and> downloadedCount sm = 1) \<and>
   (\<exists>m. mapping_file (final (main repeating_env (start [] None))) = Some m \<and>
        m ''2baf70d1'' = Some \<lparr>poster = None, banner = None\<rparr>)"
proof -
  have rc: "run_completes repeating_env [castle, castle_again]"
    by (simp add: run_completes_def mapping_writable_def repeating_env_def demo_env_def)
  have ok: "poster_ok repeating_env castle" "\<not> banner_ok repeating_env castle"
    "\<not> poster_ok repeating_env castle_again" "\<not> banner_ok repeating_env castle_again"
    by (simp_all add: poster_ok_def banner_ok_def has_url_def download_ok_def convert_ok_def
        poster_temp_def poster_final_def banner_temp_def banner_final_def path_join_def
        repeating_env_def demo_env_def castle_def castle_again_def)
  have "built_mapping repeating_env [castle, castle_again] Map.empty ''2baf70d1'' =
      Some \<lparr>poster = None, banner = None\<rparr>"
    using ok by (simp add: built_mapping_def expected_entry_def castle_def castle_again_def)
  with main_completes(2,3) [OF rc, of "start [] None"] ok show ?thesis
    by auto
qed

section \<open>The claims\<close>

text \<open>
  C1. In a run that writes the mapping file, with unique film ids: the entry of
  every film of the list has a poster field if and only if the film has a poster
  URL, its download succeeds and its conversion succeeds, and the field is then
  \<open>/images/{id}-poster.webp\<close>; likewise the banner field, with
  \<open>/images/{id}-banner.webp\<close>. For a film with no poster URL, the entry has no
  poster field and the trace holds no download to that film's temporary poster
  path.
\<close>

theorem mapping_entry_iff_success:
  assumes "run_completes e films" and "distinct (map film_id films)" and "f \<in> set films"
  shows "\<exists>m en. mapping_file (final (main e (start fs mf))) = Some m \<and> m (film_id f) = Some en \<and>
           (poster en \<noteq> None \<longleftrightarrow> poster_ok e f) \<and>
           (poster_ok e f \<longrightarrow> poster en = Some (''/images/'' @ film_id f @ ''-poster.webp'')) \<and>
           (banner en \<noteq> None \<longleftrightarrow> banner_ok e f) \<and>
           (banner_ok e f \<longrightarrow> banner en = Some (''/images/'' @ film_id f @ ''-banner.webp'')) \<and>
           (\<not> has_url (film_image f) \<longrightarrow>
              poster en = None \<and>
              (\<forall>u. HttpsGet u (poster_temp e f) \<notin> set (trace (final (main e (start fs mf))))))"
proof -
  let ?r = "main e (start fs mf)"
  let ?m = "built_mapping e films Map.empty"
  from assms(1) have w: "which_cwebp e" and fj: "fetch e (API_BASE @ ''/films'') = FetchJson films"
    by (simp_all add: run_completes_def)
  have mf: "mapping_file (final ?r) = Some ?m"
    by (rule main_completes(2) [OF assms(1)])
  have en: "?m (film_id f) = Some (expected_entry e f)"
    by (rule built_mapping_distinct [OF assms(2,3)])
  have gets: "http_gets (trace (final ?r)) = concat (map (attempts e) films)"
    using main_fetched(3) [OF w fj, of "start fs mf"] by (simp add: start_def)
  have no: "\<not> has_url (film_image f) \<Longrightarrow> HttpsGet u (poster_temp e f) \<notin> set (trace (final ?r))" for u
    using no_poster_attempt [OF assms(2,3), of u e] by (simp add: HttpsGet_in_trace gets)
  have nu: "\<not> has_url (film_image f) \<Longrightarrow> \<not> poster_ok e f"
    by (simp add: poster_ok_def)
  from mf en no nu show ?thesis
    by (auto simp: expected_entry_def poster_path_def banner_path_def)
qed

theorem mapping_entry_iff_success_witness:
  "\<exists>m. mapping_file (final (main demo_env (start [] None))) = Some m \<and>
        m ''2baf70d1'' = Some \<lparr>poster = Some ''/images/2baf70d1-poster.webp'', banner = None\<rparr> \<and>
        m ''12cfb892'' = Some \<lparr>poster = None, banner = None\<rparr> \<and>
        (\<forall>u. HttpsGet u ''public/images/12cfb892-poster.jpg''
               \<notin> set (trace (final (main demo_env (start [] None)))))"
proof -
  have c: "castle \<in> set demo_films" and g: "grave \<in> set demo_films"
    by (simp_all add: demo_films_def)
  have ids: "film_id castle = ''2baf70d1''" "film_id grave = ''12cfb892''"
    "poster_temp demo_env grave = ''public/images/12cfb892-poster.jpg''"
    "\<not> has_url (film_image grave)"
    by (simp_all add: castle_def grave_def poster_temp_def path_join_def demo_env_def has_url_def)
  from mapping_entry_iff_success [OF demo_completes demo_distinct c, of "[]" None]
    mapping_entry_iff_success [OF demo_completes demo_distinct g, of "[]" None]
    demo_outcomes ids
  show ?thesis
    by (auto simp: entry.equality)
qed

text \<open>
  C2. The claim: after any failed download the mapping entry omits the field and
  the temporary file does not exist. In the example run the banner URL of the first
  film answers 404: the entry has no banner, but the temporary file
  \<open>public/images/2baf70d1-banner.jpg\<close> is on disk, empty, at the end of the run. The
  write stream has created it, and the branch for a status other than 200 rejects
  without removing it; only the handler of transport errors unlinks the file
  (lemmas \<open>downloadFile_status_leaves_file\<close> and \<open>downloadFile_error_removes_file\<close>).
\<close>

theorem failed_status_leaves_temp_file:
  "https_get demo_env ''https://img/castle-wide.jpg'' ''public/images/2baf70d1-banner.jpg'' = Response 404 0 \<and>
   map_of (files (final (main demo_env (start [] None)))) ''public/images/2baf70d1-banner.jpg'' = Some 0 \<and>
   (\<exists>m en. mapping_file (final (main demo_env (start [] None))) = Some m \<and>
            m ''2baf70d1'' = Some en \<and> banner en = None)"
proof -
  have 1: "https_get demo_env ''https://img/castle-wide.jpg'' ''public/images/2baf70d1-banner.jpg'' = Response 404 0"
    by (simp add: demo_env_def)
  have 2: "map_of (files (final (main demo_env (start [] None)))) ''public/images/2baf70d1-banner.jpg'' = Some 0"
    by (simp add: main_def demo_defs start_def process_film_def process_poster_def process_banner_def
        downloadFile_def convertToWebP_def path_join_def log_error_def API_BASE_def Let_def)
  have c: "castle \<in> set demo_films" by (simp add: demo_films_def)
  have 3: "\<exists>m en. mapping_file (final (main demo_env (start [] None))) = Some m \<and>
            m ''2baf70d1'' = Some en \<and> banner en = None"
    using main_completes(2) [OF demo_completes, of "start [] None"]
      built_mapping_distinct [OF demo_distinct c, of demo_env Map.empty] demo_outcomes(2)
    by (simp add: expected_entry_def castle_def)
  from 1 2 3 show ?thesis by blast
qed

text \<open>
  C3. A call of \<open>convertToWebP\<close> that omits the quality runs the one command
  \<open>cwebp -q 60 "input" -o "output"\<close>, and every command a run of \<open>main\<close> executes is
  the probe or such a command whose output path is its input path with \<open>.webp\<close> in
  the place of \<open>.jpg\<close>. When the encoder succeeds on an existing input, the call
  returns normally, the input file is gone and the output file is there. When the
  encoder fails, the call throws the encoder's error and leaves the files as they
  were; the handler of the poster (of the banner) catches that error and prints it,
  the temporary file is still on disk with the downloaded content, the mapping and
  the count are unchanged, and a run in which nothing fails at the top level still
  ends with exit code 0.
\<close>

theorem convert_at_quality_60:
  "execs (trace (snd (convertToWebP e i out None s))) =
     execs (trace s) @ [''cwebp -q 60 '' @ dq @ i @ dq @ '' -o '' @ dq @ out @ dq] \<and>
   (\<forall>c \<in> set (execs (trace (final (main e (start fs mf))))).
      c = ''which cwebp'' \<or>
      (\<exists>stem. c = ''cwebp -q 60 '' @ dq @ stem @ ''.jpg'' @ dq @ '' -o '' @ dq @ stem @ ''.webp'' @ dq)) \<and>
   (cwebp e 60 i out = ExecOk len \<and> map_of (files s) i \<noteq> None \<and> i \<noteq> out \<longrightarrow>
      fst (convertToWebP e i out None s) = Inr () \<and>
      map_of (files (snd (convertToWebP e i out None s))) i = None \<and>
      map_of (files (snd (convertToWebP e i out None s))) out = Some len) \<and>
   (cwebp e 60 i out = ExecError msg \<longrightarrow>
      fst (convertToWebP e i out None s) = Inl msg \<and>
      files (snd (convertToWebP e i out None s)) = files s) \<and>
   (film_image f = Some u \<and> u \<noteq> [] \<and> https_get e u (poster_temp e f) = Response 200 n \<and>
    cwebp e 60 (poster_temp e f) (poster_final e f) = ExecError msg \<longrightarrow>
      (\<exists>s'. process_poster e f (m, c, s) = (m, c, s') \<and>
            map_of (files s') (poster_temp e f) = Some n \<and>
            last (trace s') = ConsoleError [''Failed to process poster:'', msg])) \<and>
   (film_movie_banner f = Some u \<and> u \<noteq> [] \<and> https_get e u (banner_temp e f) = Response 200 n \<and>
    cwebp e 60 (banner_temp e f) (banner_final e f) = ExecError msg \<longrightarrow>
      (\<exists>s'. process_banner e f (m, c, s) = (m, c, s') \<and>
            map_of (files s') (banner_temp e f) = Some n \<and>
            last (trace s') = ConsoleError [''Failed to process banner:'', msg])) \<and>
   (run_completes e films \<longrightarrow> exit_code (main e (start fs mf)) = 0)"
proof -
  have 1: "execs (trace (snd (convertToWebP e i out None s))) =
     execs (trace s) @ [''cwebp -q 60 '' @ dq @ i @ dq @ '' -o '' @ dq @ out @ dq]"
    by (rule convertToWebP_command)
  note 2 = main_commands [of e fs mf]
  have 3: "cwebp e 60 i out = ExecOk len \<and> map_of (files s) i \<noteq> None \<and> i \<noteq> out \<longrightarrow>
      fst (convertToWebP e i out None s) = Inr () \<and>
      map_of (files (snd (convertToWebP e i out None s))) i = None \<and>
      map_of (files (snd (convertToWebP e i out None s))) out = Some len"
    using convertToWebP_success [of e i out len s] by blast
  have 4: "cwebp e 60 i out = ExecError msg \<longrightarrow>
      fst (convertToWebP e i out None s) = Inl msg \<and>
      files (snd (convertToWebP e i out None s)) = files s"
    using convertToWebP_failure(1,2) [of e i out msg s] by blast
  have 5: "film_image f = Some u \<and> u \<noteq> [] \<and> https_get e u (poster_temp e f) = Response 200 n \<and>
    cwebp e 60 (poster_temp e f) (poster_final e f) = ExecError msg \<longrightarrow>
      (\<exists>s'. process_poster e f (m, c, s) = (m, c, s') \<and>
            map_of (files s') (poster_temp e f) = Some n \<and>
            last (trace s') = ConsoleError [''Failed to process poster:'', msg])"
    using poster_handler [of f u e n msg m c s] by blast
  have 6: "film_movie_banner f = Some u \<and> u \<noteq> [] \<and> https_get e u (banner_temp e f) = Response 200 n \<and>
    cwebp e 60 (banner_temp e f) (banner_final e f) = ExecError msg \<longrightarrow>
      (\<exists>s'. process_banner e f (m, c, s) = (m, c, s') \<and>
            map_of (files s') (banner_temp e f) = Some n \<and>
            last (trace s') = ConsoleError [''Failed to process banner:'', msg])"
    using banner_handler [of f u e n msg m c s] by blast
  have 7: "run_completes e films \<longrightarrow> exit_code (main e (start fs mf)) = 0"
    by (simp add: main_completes(1))
  show ?thesis
    apply (rule conjI, rule 1)
    apply (rule conjI, rule 2)
    apply (rule conjI, rule 3)
    apply (rule conjI, rule 4)
    apply (rule conjI, rule 5)
    apply (rule conjI, rule 6)
    apply (rule 7)
    done
qed

theorem convert_at_quality_60_witness:
  "execs (trace (snd (convertToWebP demo_env ''public/images/58611129-poster.jpg''
       ''public/images/58611129-poster.webp'' None
       (start [(''public/images/58611129-poster.jpg'', 5000)] None)))) =
     [''cwebp -q 60 '' @ dq @ ''public/images/58611129-poster.jpg'' @ dq @ '' -o '' @ dq @
        ''public/images/58611129-poster.webp'' @ dq] \<and>
   fst (convertToWebP demo_env ''public/images/58611129-poster.jpg''
       ''public/images/58611129-poster.webp'' None
       (start [(''public/images/58611129-poster.jpg'', 5000)] None)) = Inl ''Command failed'' \<and>
   files (snd (convertToWebP demo_env ''public/images/58611129-poster.jpg''
       ''public/images/58611129-poster.webp'' None
       (start [(''public/images/58611129-poster.jpg'', 5000)] None))) =
     [(''public/images/58611129-poster.jpg'', 5000)] \<and>
   fst (convertToWebP demo_env ''public/images/2baf70d1-poster.jpg''
       ''public/images/2baf70d1-poster.webp'' None
       (start [(''public/images/2baf70d1-poster.jpg'', 5000)] None)) = Inr () \<and>
   map_of (files (snd (convertToWebP demo_env ''public/images/2baf70d1-poster.jpg''
       ''public/images/2baf70d1-poster.webp'' None
       (start [(''public/images/2baf70d1-poster.jpg'', 5000)] None))))
     ''public/images/2baf70d1-poster.jpg'' = None \<and>
   (\<exists>s'. process_poster demo_env totoro (Map.empty, 0, start [] None) = (Map.empty, 0, s') \<and>
         map_of (files s') ''public/images/58611129-poster.jpg'' = Some 5000 \<and>
         last (trace s') = ConsoleError [''Failed to process poster:'', ''Command failed'']) \<and>
   exit_code (main demo_env (start [] None)) = 0"
proof -
  let ?i = "''public/images/58611129-poster.jpg''" and ?out = "''public/images/58611129-poster.webp''"
  let ?i2 = "''public/images/2baf70d1-poster.jpg''" and ?out2 = "''public/images/2baf70d1-poster.webp''"
  have paths: "poster_temp demo_env totoro = ?i" "poster_final demo_env totoro = ?out"
    by (simp_all add: poster_temp_def poster_final_def path_join_def demo_env_def totoro_def)
  have h1: "cwebp demo_env 60 ?i ?out = ExecError ''Command failed''"
    by (simp add: demo_env_def)
  have h2: "cwebp demo_env 60 ?i2 ?out2 = ExecOk 1200"
    "map_of (files (start [(?i2, 5000)] None)) ?i2 \<noteq> None" "?i2 \<noteq> ?out2"
    by (simp_all add: demo_env_def start_def)
  have h3: "film_image totoro = Some ''https://img/totoro.jpg''" "''https://img/totoro.jpg'' \<noteq> []"
    "https_get demo_env ''https://img/totoro.jpg'' ?i = Response 200 5000"
    by (simp_all add: demo_env_def totoro_def)
  from convert_at_quality_60 [of demo_env ?i ?out "start [(?i, 5000)] None" "[]" None 0
      "''Command failed''" totoro "''https://img/totoro.jpg''" 5000 Map.empty 0 demo_films]
    h1 h3 demo_completes paths
  have a: "execs (trace (snd (convertToWebP demo_env ?i ?out None (start [(?i, 5000)] None)))) =
      [''cwebp -q 60 '' @ dq @ ?i @ dq @ '' -o '' @ dq @ ?out @ dq]"
    "fst (convertToWebP demo_env ?i ?out None (start [(?i, 5000)] None)) = Inl ''Command failed''"
    "files (snd (convertToWebP demo_env ?i ?out None (start [(?i, 5000)] None))) = [(?i, 5000)]"
    by (simp_all add: start_def)
  from convert_at_quality_60 [of demo_env ?i2 ?out2 "start [(?i2, 5000)] None" "[]" None 1200
      "''Command failed''" totoro "''https://img/totoro.jpg''" 5000 Map.empty 0 demo_films]
    h2
  have b: "fst (convertToWebP demo_env ?i2 ?out2 None (start [(?i2, 5000)] None)) = Inr ()"
    "map_of (files (snd (convertToWebP demo_env ?i2 ?out2 None (start [(?i2, 5000)] None)))) ?i2 = None"
    by blast+
  from convert_at_quality_60 [of demo_env ?i ?out "start [] None" "[]" None 0
      "''Command failed''" totoro "''https://img/totoro.jpg''" 5000 Map.empty 0 demo_films]
    h1 h3 demo_completes paths
  have c: "\<exists>s'. process_poster demo_env totoro (Map.empty, 0, start [] None) = (Map.empty, 0, s') \<and>
         map_of (files s') ?i = Some 5000 \<and>
         last (trace s') = ConsoleError [''Failed to process poster:'', ''Command failed'']"
    "exit_code (main demo_env (start [] None)) = 0"
    by simp_all
  from a b c show ?thesis by blast
qed

text \<open>
  C4. The claim does not hold of \<open>downloadFile\<close> for a download that does not settle,
  and no theorem is stated for it. \<open>downloadFile\<close> resolves on the \<open>finish\<close> of the
  write stream and rejects on a status other than 200 or on the \<open>error\<close> of the
  request, and only a rejection reaches the handler around each image. When a
  response with status 200 is cut after its headers, neither happens: the promise
  that \<open>main\<close> awaits never settles, so the run stops inside that film, with the
  other image of the film and every later film not attempted and no mapping
  written. An \<open>error\<close> of the write stream has no listener either and ends the
  process inside the loop. The answers of \<open>env\<close> are those of requests that settle;
  for them the handlers do what the claim says: by \<open>process_film_state\<close> and
  \<open>process_films_state\<close> the downloads attempted are the poster and then the banner
  of every film in the order of the list, whatever was rejected, and by
  \<open>process_film_mapping\<close> each field of an entry depends on its own image only.
\<close>

text \<open>
  C5. A run in which nothing fails at the top level (the encoder is found, the
  list is fetched, the mapping file is written) ends with exit code 0, whatever
  the outcomes of the downloads and conversions. A run with no encoder ends with a
  code other than 0 and makes no network request. A run whose list fetch throws
  ends with a code other than 0. The exit code is 0 or 1, and it is 0 only when
  nothing failed at the top level. The probe \<open>which cwebp\<close> is the first event of
  every run and happens once.
\<close>

theorem exit_codes:
  "(run_completes e films \<longrightarrow> exit_code (main e (start fs mf)) = 0) \<and>
   (\<not> which_cwebp e \<longrightarrow>
      exit_code (main e (start fs mf)) \<noteq> 0 \<and>
      filter is_network (trace (final (main e (start fs mf)))) = []) \<and>
   (which_cwebp e \<and> fetch e (API_BASE @ ''/films'') = FetchThrows msg \<longrightarrow>
      exit_code (main e (start fs mf)) \<noteq> 0) \<and>
   (exit_code (main e (start fs mf)) = 0 \<or> exit_code (main e (start fs mf)) = 1) \<and>
   (exit_code (main e (start fs mf)) = 0 \<longrightarrow> (\<exists>films'. run_completes e films')) \<and>
   (\<exists>rest. trace (final (main e (start fs mf))) = Exec ''which cwebp'' # rest \<and>
           Exec ''which cwebp'' \<notin> set rest)"
proof -
  let ?r = "main e (start fs mf)"
  have 1: "run_completes e films \<longrightarrow> exit_code ?r = 0"
    by (simp add: main_completes(1))
  have 2: "\<not> which_cwebp e \<longrightarrow> exit_code ?r \<noteq> 0 \<and> filter is_network (trace (final ?r)) = []"
    by (simp add: main_no_encoder start_def)
  have 3: "which_cwebp e \<and> fetch e (API_BASE @ ''/films'') = FetchThrows msg \<longrightarrow> exit_code ?r \<noteq> 0"
    by (simp add: main_fetch_throws(1))
  have 4: "exit_code ?r = 0 \<or> exit_code ?r = 1"
    by (simp add: main_exit_code)
  have 5: "exit_code ?r = 0 \<longrightarrow> (\<exists>films'. run_completes e films')"
    by (simp add: main_exit_code)
  from 1 2 3 4 5 main_probe_once [of e fs mf] show ?thesis by blast
qed

theorem exit_codes_witness:
  "exit_code (main demo_env (start [] None)) = 0 \<and>
   \<not> poster_ok demo_env totoro \<and> \<not> banner_ok demo_env castle \<and>
   exit_code (main no_encoder_env (start [] None)) = 1 \<and>
   filter is_network (trace (final (main no_encoder_env (start [] None)))) = [] \<and>
   exit_code (main offline_env (start [] None)) = 1 \<and>
   exit_code (main readonly_env (start [] None)) = 1"
proof -
  have a: "\<not> which_cwebp no_encoder_env"
    by (simp add: no_encoder_env_def)
  have b: "which_cwebp offline_env \<and> fetch offline_env (API_BASE @ ''/films'') = FetchThrows ''fetch failed''"
    by (simp add: offline_env_def demo_env_def)
  have 1: "exit_code (main demo_env (start [] None)) = 0"
    using exit_codes [of demo_env demo_films "[]" None "[]"] demo_completes by simp
  have 2: "exit_code (main no_encoder_env (start [] None)) = 1 \<and>
      filter is_network (trace (final (main no_encoder_env (start [] None)))) = []"
    using exit_codes [of no_encoder_env "[]" "[]" None "[]"] a by auto
  have 3: "exit_code (main offline_env (start [] None)) = 1"
    using exit_codes [of offline_env "[]" "[]" None "''fetch failed''"] b by auto
  have c: "\<not> run_completes readonly_env films'" for films'
    by (simp add: run_completes_def mapping_writable_def readonly_env_def)
  have 4: "exit_code (main readonly_env (start [] None)) = 1"
    using exit_codes [of readonly_env "[]" "[]" None "[]"] c by auto
  from 1 2 3 4 demo_outcomes(2,3) show ?thesis by simp
qed

text \<open>
  C6. In a run that prints the summary, with unique film ids: the count of images
  downloaded that the summary prints is the number of entries of the written
  mapping that have a poster plus the number of entries that have a banner.
\<close>

theorem summary_count_matches_mapping:
  assumes "run_completes e films" and "distinct (map film_id films)"
  shows "\<exists>m sm. mapping_file (final (main e s0)) = Some m \<and> printed (main e s0) = Some sm \<and>
           downloadedCount sm = card (with_poster m) + card (with_banner m)"
proof -
  let ?m = "built_mapping e films Map.empty"
  have mf: "mapping_file (final (main e s0)) = Some ?m"
    by (rule main_completes(2) [OF assms(1)])
  from main_completes(3) [OF assms(1), of s0] obtain sm
    where sm: "printed (main e s0) = Some sm"
      "downloadedCount sm = length (filter (poster_ok e) films) + length (filter (banner_ok e) films)"
    by blast
  have "card (with_poster ?m) = length (filter (poster_ok e) films)"
    using card_with_poster [of Map.empty films e] assms(2) by (simp add: with_poster_def)
  moreover have "card (with_banner ?m) = length (filter (banner_ok e) films)"
    using card_with_banner [of Map.empty films e] assms(2) by (simp add: with_banner_def)
  ultimately show ?thesis using mf sm by simp
qed

theorem summary_count_matches_mapping_witness:
  "\<exists>m sm. mapping_file (final (main demo_env (start [] None))) = Some m \<and>
          printed (main demo_env (start [] None)) = Some sm \<and>
          downloadedCount sm = card (with_poster m) + card (with_banner m) \<and>
          downloadedCount sm = 1 \<and> totalImages sm = 6"
proof -
  from main_completes(3) [OF demo_completes, of "start [] None"] obtain sm0
    where sm0: "printed (main demo_env (start [] None)) = Some sm0" "downloadedCount sm0 = 1"
      "totalImages sm0 = 6"
    using demo_outcomes by (auto simp: demo_films_def)
  from summary_count_matches_mapping [OF demo_completes demo_distinct, of "start [] None"] sm0
  show ?thesis by auto
qed

text \<open>
  C7. For a mapping that stores paths (no stored field is the empty string, as in
  every mapping the script writes: lemma \<open>written_mapping_stores_paths\<close>), every film
  id and every fallback: \<open>getFilmPoster\<close> returns the poster path of the id's entry
  when the entry exists and has one, and the fallback otherwise; the variant with
  no fallback parameter returns \<open>/images/placeholder.webp\<close> in the second case; the
  banner helpers do the same with the banner field. (The operator \<open>||\<close> also takes
  the fallback for a stored empty string.)
\<close>

theorem lookup_or_fallback:
  assumes "stores_paths m"
  shows "getFilmPoster m k fb =
           (case m k of None \<Rightarrow> fb | Some en \<Rightarrow> (case poster en of None \<Rightarrow> fb | Some p \<Rightarrow> p)) \<and>
         getFilmBanner m k fb =
           (case m k of None \<Rightarrow> fb | Some en \<Rightarrow> (case banner en of None \<Rightarrow> fb | Some p \<Rightarrow> p)) \<and>
         getFilmPoster_fixed m k =
           (case m k of None \<Rightarrow> ''/images/placeholder.webp''
            | Some en \<Rightarrow> (case poster en of None \<Rightarrow> ''/images/placeholder.webp'' | Some p \<Rightarrow> p)) \<and>
         getFilmBanner_fixed m k =
           (case m k of None \<Rightarrow> ''/images/placeholder.webp''
            | Some en \<Rightarrow> (case banner en of None \<Rightarrow> ''/images/placeholder.webp'' | Some p \<Rightarrow> p))"
  using assms
  by (auto simp: stores_paths_def getFilmPoster_def getFilmBanner_def getFilmPoster_fixed_def
      getFilmBanner_fixed_def js_or_def split: option.splits)

theorem lookup_or_fallback_witness:
  "stores_paths demo_mapping \<and>
   getFilmPoster demo_mapping ''2baf70d1'' ''https://img/castle.jpg'' = ''/images/2baf70d1-poster.webp'' \<and>
   getFilmBanner demo_mapping ''2baf70d1'' ''https://img/castle-wide.jpg'' = ''https://img/castle-wide.jpg'' \<and>
   getFilmPoster demo_mapping ''58611129'' ''https://img/totoro.jpg'' = ''https://img/totoro.jpg'' \<and>
   getFilmPoster_fixed demo_mapping ''2baf70d1'' = ''/images/2baf70d1-poster.webp'' \<and>
   getFilmBanner_fixed demo_mapping ''2baf70d1'' = ''/images/placeholder.webp''"
proof -
  have sp: "stores_paths demo_mapping"
    by (auto simp: stores_paths_def demo_mapping_def split: if_splits)
  from lookup_or_fallback [OF sp, of "''2baf70d1''" "''https://img/castle.jpg''"]
    lookup_or_fallback [OF sp, of "''2baf70d1''" "''https://img/castle-wide.jpg''"]
    lookup_or_fallback [OF sp, of "''58611129''" "''https://img/totoro.jpg''"]
    sp
  show ?thesis by (simp add: demo_mapping_def)
qed

text \<open>
  C8. With the same answers of the outside world (the same \<open>env\<close>: film list and
  outcome of every download and conversion), a second run started from the state
  the first run left has the same mapping file as the first; and a run that
  completes writes a mapping that does not depend on the state it started from
  (the files on disk, an earlier mapping file, the trace).
\<close>

theorem mapping_rebuilt_each_run:
  "mapping_file (final (main e (final (main e s0)))) = mapping_file (final (main e s0)) \<and>
   (exit_code (main e s0) = 0 \<longrightarrow>
      mapping_file (final (main e s0)) = mapping_file (final (main e s0')) \<and>
      mapping_file (final (main e s0)) \<noteq> None)"
proof -
  have 1: "mapping_file (final (main e (final (main e s0)))) = mapping_file (final (main e s0))"
    by (auto simp: main_mapping_file split: fetch_result.splits)
  have 2: "mapping_file (final (main e s0)) = mapping_file (final (main e s0')) \<and>
      mapping_file (final (main e s0)) \<noteq> None" if "exit_code (main e s0) = 0"
  proof -
    from that obtain films where "run_completes e films"
      by (auto simp: main_exit_code split: if_splits)
    then show ?thesis by (simp add: main_completes(2))
  qed
  from 1 2 show ?thesis by blast
qed

theorem mapping_rebuilt_each_run_witness:
  "exit_code (main demo_env (start [] None)) = 0 \<and>
   mapping_file (final (main demo_env (start [] None))) =
     mapping_file (final (main demo_env (start [(''public/images/old.webp'', 7)] (Some Map.empty)))) \<and>
   mapping_file (final (main demo_env (final (main demo_env (start [] None))))) =
     mapping_file (final (main demo_env (start [] None)))"
proof -
  have "exit_code (main demo_env (start [] None)) = 0"
    by (rule main_completes(1) [OF demo_completes])
  with mapping_rebuilt_each_run [of demo_env "start [] None" "start [(''public/images/old.webp'', 7)] (Some Map.empty)"]
  show ?thesis by simp
qed

text \<open>
  C10. When a run writes the mapping file, the keys of the mapping are exactly the
  ids of the films of the fetched list: every film has an entry. With film ids
  that are unique (as the data model has them), a film whose poster and banner both
  did not go through (no URL, a failed download or a failed conversion) has the
  empty entry, with neither field.
\<close>

theorem every_film_has_an_entry:
  assumes "run_completes e films"
  shows "\<exists>m. mapping_file (final (main e s0)) = Some m \<and>
           dom m = film_id ` set films \<and>
           (distinct (map film_id films) \<longrightarrow>
              (\<forall>f \<in> set films. \<not> poster_ok e f \<and> \<not> banner_ok e f \<longrightarrow>
                 m (film_id f) = Some \<lparr>poster = None, banner = None\<rparr>))"
proof -
  let ?m = "built_mapping e films Map.empty"
  have "mapping_file (final (main e s0)) = Some ?m"
    by (rule main_completes(2) [OF assms])
  moreover have "dom ?m = film_id ` set films"
    by (simp add: built_mapping_dom)
  moreover have "distinct (map film_id films) \<longrightarrow>
              (\<forall>f \<in> set films. \<not> poster_ok e f \<and> \<not> banner_ok e f \<longrightarrow>
                 ?m (film_id f) = Some \<lparr>poster = None, banner = None\<rparr>)"
    by (simp add: built_mapping_distinct expected_entry_def)
  ultimately show ?thesis by blast
qed

theorem every_film_has_an_entry_witness:
  "\<exists>m. mapping_file (final (main demo_env (start [] None))) = Some m \<and>
        dom m = {''2baf70d1'', ''58611129'', ''12cfb892''} \<and>
        m ''58611129'' = Some \<lparr>poster = None, banner = None\<rparr> \<and>
        m ''12cfb892'' = Some \<lparr>poster = None, banner = None\<rparr>"
proof -
  have t: "totoro \<in> set demo_films" and g: "grave \<in> set demo_films"
    by (simp_all add: demo_films_def)
  have ids: "film_id ` set demo_films = {''2baf70d1'', ''58611129'', ''12cfb892''}"
    "film_id totoro = ''58611129''" "film_id grave = ''12cfb892''"
    by (simp_all add: demo_films_def castle_def totoro_def grave_def)
  from every_film_has_an_entry [OF demo_completes, of "start [] None"]
  obtain m where m: "mapping_file (final (main demo_env (start [] None))) = Some m"
    "dom m = film_id ` set demo_films"
    "distinct (map film_id demo_films) \<longrightarrow>
       (\<forall>f \<in> set demo_films. \<not> poster_ok demo_env f \<and> \<not> banner_ok demo_env f \<longrightarrow>
          m (film_id f) = Some \<lparr>poster = None, banner = None\<rparr>)"
    by blast
  from m(3) demo_distinct t g demo_outcomes
  have "m (film_id totoro) = Some \<lparr>poster = None, banner = None\<rparr>"
    "m (film_id grave) = Some \<lparr>poster = None, banner = None\<rparr>"
    by blast+
  with m(1,2) ids show ?thesis by simp
qed

end
